theory Spec2Isabelle
  imports Main
begin

section \<open>JavaScript strings\<close>

text \<open>
  A JavaScript string is a sequence of UTF-16 code units; \<open>length\<close>, \<open>includes\<close>, \<open>trim\<close>
  and the regular expressions of the program (none of them has the \<open>u\<close> flag) all work
  on code units. A code unit is modelled as a natural number.
\<close>

type_synonym jsstring = "nat list"

definition js :: "string \<Rightarrow> jsstring" where
  "js s = map of_char s"

text \<open>The non-ASCII characters of the source (\<open>unnamed/part_001\<close>), as code units.\<close>

definition BULLET :: nat where "BULLET = 8226"          \<comment> \<open>U+2022, the bullet marker\<close>
definition RULE :: nat where "RULE = 9473"              \<comment> \<open>U+2501, the heavy horizontal rule\<close>
definition CAP :: jsstring where "CAP = [55356, 57235]"       \<comment> \<open>U+1F393 graduation cap\<close>
definition MEMO :: jsstring where "MEMO = [55357, 56541]"     \<comment> \<open>U+1F4DD memo\<close>
definition CLIPBOARD :: jsstring where "CLIPBOARD = [55357, 56523]" \<comment> \<open>U+1F4CB clipboard\<close>
definition BOOKS :: jsstring where "BOOKS = [55357, 56538]"   \<comment> \<open>U+1F4DA books\<close>
definition DART :: jsstring where "DART = [55356, 57263]"     \<comment> \<open>U+1F3AF direct hit\<close>
definition CALENDAR :: jsstring where "CALENDAR = [55357, 56517]" \<comment> \<open>U+1F4C5 calendar\<close>

text \<open>White space of ECMAScript: what \<open>\s\<close> matches and what \<open>trim\<close> removes.\<close>

definition isWhiteSpace :: "nat \<Rightarrow> bool" where
  "isWhiteSpace c \<longleftrightarrow>
     c = 9 \<or> c = 10 \<or> c = 11 \<or> c = 12 \<or> c = 13 \<or> c = 32 \<or> c = 160 \<or> c = 5760 \<or>
     (8192 \<le> c \<and> c \<le> 8202) \<or> c = 8232 \<or> c = 8233 \<or> c = 8239 \<or> c = 8287 \<or>
     c = 12288 \<or> c = 65279"

definition isDigit :: "nat \<Rightarrow> bool" where
  "isDigit c \<longleftrightarrow> 48 \<le> c \<and> c \<le> 57"

definition isWordChar :: "nat \<Rightarrow> bool" where
  "isWordChar c \<longleftrightarrow> (65 \<le> c \<and> c \<le> 90) \<or> (97 \<le> c \<and> c \<le> 122) \<or> isDigit c \<or> c = 95"

definition trim :: "jsstring \<Rightarrow> jsstring" where
  "trim s = rev (dropWhile isWhiteSpace (rev (dropWhile isWhiteSpace s)))"

fun startsWith :: "jsstring \<Rightarrow> jsstring \<Rightarrow> bool" where
  "startsWith s [] = True"
| "startsWith [] (p # ps) = False"
| "startsWith (c # cs) (p # ps) = (c = p \<and> startsWith cs ps)"

text \<open>\<open>s.includes(t)\<close>: \<open>t\<close> occurs in \<open>s\<close> as a contiguous run.\<close>

fun includes_js :: "jsstring \<Rightarrow> jsstring \<Rightarrow> bool" where
  "includes_js [] t = (t = [])"
| "includes_js (c # cs) t = (startsWith (c # cs) t \<or> includes_js cs t)"

text \<open>\<open>s.replace(t, '')\<close> with a string pattern: the first occurrence of \<open>t\<close> is removed.\<close>

fun removeFirst :: "jsstring \<Rightarrow> jsstring \<Rightarrow> jsstring" where
  "removeFirst [] t = []"
| "removeFirst (c # cs) t =
     (if startsWith (c # cs) t then drop (length t) (c # cs) else c # removeFirst cs t)"

text \<open>\<open>xs.join('\n')\<close>.\<close>

fun joinLines :: "jsstring list \<Rightarrow> jsstring" where
  "joinLines [] = []"
| "joinLines [x] = x"
| "joinLines (x # y # ys) = x @ [10] @ joinLines (y # ys)"

section \<open>The regular expressions of the program\<close>

text \<open>
  Every quantifier in the program's patterns is applied to a single character class, at
  most one group captures, and the only assertions are \<open>$\<close> and one positive lookahead.
  A pattern is a sequence of items; matching is by backtracking in the order ECMAScript
  prescribes: a greedy quantifier tries the longer match first, a lazy one the shorter,
  and each is followed by the rest of the pattern before it is given up.
\<close>

datatype cls = Ch nat | Space | NonSpace | Digit | Word

datatype quant = Once | Opt | Star | Plus | LazyStar | Between nat nat

datatype rx =
    Lit jsstring                 \<comment> \<open>literal characters\<close>
  | Rep bool "cls list" quant    \<comment> \<open>character class (negated?, members) under a quantifier\<close>
  | Eos                          \<comment> \<open>\<open>$\<close> without the \<open>m\<close> flag: end of input\<close>
  | CapOpen                      \<comment> \<open>opening parenthesis of group 1\<close>
  | CapClose                     \<comment> \<open>closing parenthesis of group 1\<close>
  | Look "rx list list"          \<comment> \<open>\<open>(?=a|b)\<close>\<close>

text \<open>
  Canonicalize of ECMAScript without the \<open>u\<close> flag maps a code unit to its upper case,
  but never a non-ASCII unit to an ASCII one. The characters of the program's patterns are
  ASCII, the bullet and surrogate halves, so two units are equal under \<open>i\<close> exactly when
  they are equal after ASCII upper-casing.
\<close>

definition asciiUpper :: "nat \<Rightarrow> nat" where
  "asciiUpper c = (if 97 \<le> c \<and> c \<le> 122 then c - 32 else c)"

definition ceq :: "bool \<Rightarrow> nat \<Rightarrow> nat \<Rightarrow> bool" where
  "ceq ic p c = (if ic then asciiUpper p = asciiUpper c else p = c)"

fun inCls :: "bool \<Rightarrow> nat \<Rightarrow> cls \<Rightarrow> bool" where
  "inCls ic c (Ch p) = ceq ic p c"
| "inCls ic c Space = isWhiteSpace c"
| "inCls ic c NonSpace = (\<not> isWhiteSpace c)"
| "inCls ic c Digit = isDigit c"
| "inCls ic c Word = isWordChar c"

definition inSet :: "bool \<Rightarrow> bool \<Rightarrow> cls list \<Rightarrow> nat \<Rightarrow> bool" where
  "inSet ic neg ms c = (list_ex (inCls ic c) ms \<noteq> neg)"

fun qmin :: "quant \<Rightarrow> nat" where
  "qmin Once = 1" | "qmin Opt = 0" | "qmin Star = 0" | "qmin Plus = 1"
| "qmin LazyStar = 0" | "qmin (Between a b) = a"

fun qmax :: "quant \<Rightarrow> nat option" where
  "qmax Once = Some 1" | "qmax Opt = Some 1" | "qmax Star = None" | "qmax Plus = None"
| "qmax LazyStar = None" | "qmax (Between a b) = Some b"

fun greedy :: "quant \<Rightarrow> bool" where
  "greedy LazyStar = False"
| "greedy q = True"

text \<open>A literal at the head of the input: the input after it.\<close>

fun litRest :: "bool \<Rightarrow> jsstring \<Rightarrow> jsstring \<Rightarrow> jsstring option" where
  "litRest ic [] s = Some s"
| "litRest ic (p # ps) [] = None"
| "litRest ic (p # ps) (c # cs) = (if ceq ic p c then litRest ic ps cs else None)"

text \<open>
  The matcher's state: the input still to be read, and the input as it was where group 1
  opened and where it closed. \<open>mseq\<close> matches a pattern at the head of the input;
  \<open>mrep\<close> is a quantified class followed by the rest \<open>rs\<close> of the pattern, with the
  numbers of repetitions still required (\<open>mn\<close>) and still allowed (\<open>mx\<close>).
\<close>

type_synonym mstate = "jsstring \<times> jsstring \<times> jsstring"

function mseq :: "bool \<Rightarrow> rx list \<Rightarrow> jsstring \<Rightarrow> jsstring \<Rightarrow> jsstring \<Rightarrow> mstate option"
  and mrep :: "bool \<Rightarrow> bool \<Rightarrow> cls list \<Rightarrow> bool \<Rightarrow> nat \<Rightarrow> nat option \<Rightarrow> rx list
                 \<Rightarrow> jsstring \<Rightarrow> jsstring \<Rightarrow> jsstring \<Rightarrow> mstate option"
where
  "mseq ic [] s co cc = Some (s, co, cc)"
| "mseq ic (Lit p # rs) s co cc =
     (case litRest ic p s of Some r \<Rightarrow> mseq ic rs r co cc | None \<Rightarrow> None)"
| "mseq ic (Rep neg ms q # rs) s co cc = mrep ic neg ms (greedy q) (qmin q) (qmax q) rs s co cc"
| "mseq ic (Eos # rs) s co cc = (if s = [] then mseq ic rs s co cc else None)"
| "mseq ic (CapOpen # rs) s co cc = mseq ic rs s s cc"
| "mseq ic (CapClose # rs) s co cc = mseq ic rs s co s"
| "mseq ic (Look alts # rs) s co cc =
     (if list_ex (\<lambda>alt. mseq ic alt s co cc \<noteq> None) alts then mseq ic rs s co cc else None)"
| "mrep ic neg ms g mn mx rs [] co cc = (if mn = 0 then mseq ic rs [] co cc else None)"
| "mrep ic neg ms g mn mx rs (c # cs) co cc =
     (if g then
        (case (if inSet ic neg ms c \<and> mx \<noteq> Some 0
               then mrep ic neg ms g (mn - 1) (map_option (\<lambda>n. n - 1) mx) rs cs co cc
               else None) of
           Some x \<Rightarrow> Some x
         | None \<Rightarrow> (if mn = 0 then mseq ic rs (c # cs) co cc else None))
      else
        (case (if mn = 0 then mseq ic rs (c # cs) co cc else None) of
           Some x \<Rightarrow> Some x
         | None \<Rightarrow>
             (if inSet ic neg ms c \<and> mx \<noteq> Some 0
              then mrep ic neg ms g (mn - 1) (map_option (\<lambda>n. n - 1) mx) rs cs co cc
              else None)))"
  by pat_completeness auto
termination
proof -
  have est: "size_list size x \<le> Suc (size_list (size_list size) alts + n)"
    if "x \<in> set alts" for x :: "rx list" and alts n
    using size_list_estimation' [OF that, of "size_list size x" "size_list size"] by simp
  show ?thesis
    by (relation "inv_image (less_than <*lex*> less_than)
          (\<lambda>x. case x of
             Inl (ic, p, s, co, cc) \<Rightarrow> (size_list size p, 0)
           | Inr (ic, neg, ms, g, mn, mx, rs, s, co, cc) \<Rightarrow> (size_list size rs, Suc (length s)))")
       (auto simp: less_Suc_eq_le est)
qed

text \<open>The match object: \<open>match[0]\<close>, \<open>match[1]\<close>, and the input after the match.\<close>

record rmatch =
  whole :: jsstring
  group1 :: jsstring
  after :: jsstring

definition matchHere :: "bool \<Rightarrow> rx list \<Rightarrow> jsstring \<Rightarrow> rmatch option" where
  "matchHere ic p s =
     (case mseq ic p s s s of
        None \<Rightarrow> None
      | Some (r, co, cc) \<Rightarrow>
          Some \<lparr>whole = take (length s - length r) s,
                group1 = take (length co - length cc) co,
                after = drop (length s - length r) s\<rparr>)"

text \<open>\<open>s.match(p)\<close> for a pattern without the \<open>g\<close> flag: the leftmost match.\<close>

fun search :: "bool \<Rightarrow> rx list \<Rightarrow> jsstring \<Rightarrow> rmatch option" where
  "search ic p [] = matchHere ic p []"
| "search ic p (c # cs) =
     (case matchHere ic p (c # cs) of Some m \<Rightarrow> Some m | None \<Rightarrow> search ic p cs)"


text \<open>
  \<open>s.match(p)\<close> for a pattern with the \<open>g\<close> flag: all matches from left to right, each
  search starting where the previous match ended (one unit further after an empty match).
\<close>

function matchAll :: "bool \<Rightarrow> rx list \<Rightarrow> jsstring \<Rightarrow> jsstring list" where
  "matchAll ic p s =
     (case search ic p s of
        None \<Rightarrow> []
      | Some m \<Rightarrow>
          whole m #
            (if whole m = [] then (case after m of [] \<Rightarrow> [] | c # cs \<Rightarrow> matchAll ic p cs)
             else matchAll ic p (after m)))"
  by pat_completeness auto
termination
proof (relation "measure (\<lambda>(ic, p, s). length s)")
  have shorter: "length (after m) \<le> length s \<and> (whole m \<noteq> [] \<longrightarrow> length (after m) < length s)"
    if "search ic p s = Some m" for ic p s and m :: rmatch
    using that
  proof (induction s)
    case Nil
    then show ?case by (auto simp: matchHere_def split: option.splits)
  next
    case (Cons c cs)
    show ?case
    proof (cases "matchHere ic p (c # cs)")
      case None
      with Cons show ?thesis by auto
    next
      case (Some m')
      with Cons.prems have "m' = m" by simp
      with Some show ?thesis
        by (auto simp: matchHere_def split: option.splits)
    qed
  qed
  show "wf (measure (\<lambda>(ic, p, s). length s))" by simp
  show "((ic, p, cs), (ic, p, s)) \<in> measure (\<lambda>(ic, p, s). length s)"
    if "search ic p s = Some m" "after m = c # cs" for ic p s m c cs
    using shorter [OF that(1)] that(2) by simp
  show "((ic, p, after m), (ic, p, s)) \<in> measure (\<lambda>(ic, p, s). length s)"
    if "search ic p s = Some m" "whole m \<noteq> []" for ic p s m
    using shorter [OF that(1)] that(2) by simp
qed

declare matchAll.simps [simp del]

subsection \<open>The matcher's case distinctions, by pattern matching\<close>

text \<open>
  The same case distinctions as in \<open>litRest\<close>, \<open>mseq\<close>, \<open>mrep\<close>, \<open>matchHere\<close> and \<open>search\<close>,
  with the decided condition or the result of the first alternative as the first
  argument. The step lemmas below rewrite the matcher into this form, in which a
  concrete match is computed in time linear in the input.
\<close>

fun litNext :: "bool \<Rightarrow> bool \<Rightarrow> jsstring \<Rightarrow> jsstring \<Rightarrow> jsstring option" where
  "litNext True ic ps cs = litRest ic ps cs"
| "litNext False ic ps cs = None"

fun afterLit :: "jsstring option \<Rightarrow> bool \<Rightarrow> rx list \<Rightarrow> jsstring \<Rightarrow> jsstring \<Rightarrow> mstate option" where
  "afterLit (Some r) ic rs co cc = mseq ic rs r co cc"
| "afterLit None ic rs co cc = None"

fun whenTrue :: "bool \<Rightarrow> bool \<Rightarrow> rx list \<Rightarrow> jsstring \<Rightarrow> jsstring \<Rightarrow> jsstring \<Rightarrow> mstate option" where
  "whenTrue True ic rs s co cc = mseq ic rs s co cc"
| "whenTrue False ic rs s co cc = None"

fun lookAny :: "bool \<Rightarrow> rx list list \<Rightarrow> jsstring \<Rightarrow> jsstring \<Rightarrow> jsstring \<Rightarrow> bool"
  and lookStep :: "mstate option \<Rightarrow> bool \<Rightarrow> rx list list \<Rightarrow> jsstring \<Rightarrow> jsstring \<Rightarrow> jsstring \<Rightarrow> bool" where
  "lookAny ic [] s co cc = False"
| "lookAny ic (alt # alts) s co cc = lookStep (mseq ic alt s co cc) ic alts s co cc"
| "lookStep (Some x) ic alts s co cc = True"
| "lookStep None ic alts s co cc = lookAny ic alts s co cc"

fun orStop :: "mstate option \<Rightarrow> nat \<Rightarrow> bool \<Rightarrow> rx list \<Rightarrow> jsstring \<Rightarrow> jsstring \<Rightarrow> jsstring \<Rightarrow> mstate option" where
  "orStop (Some x) mn ic rs s co cc = Some x"
| "orStop None mn ic rs s co cc = whenTrue (mn = 0) ic rs s co cc"

fun orMore :: "mstate option \<Rightarrow> bool \<Rightarrow> bool \<Rightarrow> bool \<Rightarrow> cls list \<Rightarrow> nat \<Rightarrow> nat option \<Rightarrow> rx list
                 \<Rightarrow> jsstring \<Rightarrow> jsstring \<Rightarrow> jsstring \<Rightarrow> mstate option" where
  "orMore (Some x) can ic neg ms mn mx rs cs co cc = Some x"
| "orMore None True ic neg ms mn mx rs cs co cc =
     mrep ic neg ms False (mn - 1) (map_option (\<lambda>n. n - 1) mx) rs cs co cc"
| "orMore None False ic neg ms mn mx rs cs co cc = None"

fun mrepStep :: "bool \<Rightarrow> bool \<Rightarrow> bool \<Rightarrow> bool \<Rightarrow> cls list \<Rightarrow> nat \<Rightarrow> nat option \<Rightarrow> rx list
                 \<Rightarrow> nat \<Rightarrow> jsstring \<Rightarrow> jsstring \<Rightarrow> jsstring \<Rightarrow> mstate option" where
  "mrepStep True True ic neg ms mn mx rs c cs co cc =
     orStop (mrep ic neg ms True (mn - 1) (map_option (\<lambda>n. n - 1) mx) rs cs co cc)
       mn ic rs (c # cs) co cc"
| "mrepStep True False ic neg ms mn mx rs c cs co cc = whenTrue (mn = 0) ic rs (c # cs) co cc"
| "mrepStep False can ic neg ms mn mx rs c cs co cc =
     orMore (whenTrue (mn = 0) ic rs (c # cs) co cc) can ic neg ms mn mx rs cs co cc"

fun toMatch :: "mstate option \<Rightarrow> jsstring \<Rightarrow> rmatch option" where
  "toMatch None s = None"
| "toMatch (Some (r, co, cc)) s =
     Some \<lparr>whole = take (length s - length r) s,
           group1 = take (length co - length cc) co,
           after = drop (length s - length r) s\<rparr>"

fun searchStep :: "rmatch option \<Rightarrow> bool \<Rightarrow> rx list \<Rightarrow> jsstring \<Rightarrow> rmatch option" where
  "searchStep (Some m) ic p cs = Some m"
| "searchStep None ic p cs = search ic p cs"

section \<open>The multi-page merger (\<open>combineAllResults\<close>)\<close>

record courseInfo =
  name :: jsstring
  professor :: jsstring
  email :: jsstring
  meetingDays :: jsstring
  officeHours :: jsstring

text \<open>One element of \<open>allPageData\<close>: \<open>{ pageNumber, data: { plain_text } }\<close>.\<close>

record pageData =
  plain_text :: jsstring

record pageEntry =
  pageNumber :: int
  data :: pageData

text \<open>The variables \<open>combineAllResults\<close> accumulates into.\<close>

record merged =
  courseInfo :: courseInfo
  testDates :: "jsstring list"
  assignmentDeadlines :: "jsstring list"
  weeklyReadings :: "jsstring list"
  majorDeliverables :: "jsstring list"
  importantDates :: "jsstring list"

definition PLACEHOLDER :: jsstring where
  "PLACEHOLDER = js ''Not specified in document''"

text \<open>The six glyphs of the lookahead's class, which without the \<open>u\<close> flag is a class of
  surrogate halves.\<close>

definition sectionGlyphs :: "cls list" where
  "sectionGlyphs = map Ch (CAP @ MEMO @ CLIPBOARD @ BOOKS @ DART @ CALENDAR)"

text \<open>
  \<^verbatim>\<open>new RegExp(`${sectionTitle}\\s*\\n([\\s\\S]*?)(?=\\n\\s*[...]|$)`, 'i')\<close>.
  The title is spliced into the pattern's source; every caller passes one of five
  constant titles of capital letters and spaces, which denote themselves.
\<close>

definition sectionRegex :: "jsstring \<Rightarrow> rx list" where
  "sectionRegex sectionTitle =
     [Lit sectionTitle, Rep False [Space] Star, Rep False [Ch 10] Once,
      CapOpen, Rep False [Space, NonSpace] LazyStar, CapClose,
      Look [[Rep False [Ch 10] Once, Rep False [Space] Star, Rep False sectionGlyphs Once],
            [Eos]]]"

text \<open>\<^verbatim>\<open>/\<bullet>\s*([^\n]+)/g\<close>\<close>

definition bulletRegex :: "rx list" where
  "bulletRegex =
     [Lit [BULLET], Rep False [Space] Star, CapOpen, Rep True [Ch 10] Plus, CapClose]"

text \<open>\<^verbatim>\<open>bullet.replace(/^\<bullet>\s*/, '')\<close>: without the \<open>m\<close> flag \<open>^\<close> is the start of the
  string only.\<close>

definition stripBullet :: "jsstring \<Rightarrow> jsstring" where
  "stripBullet b =
     (case matchHere False [Lit [BULLET], Rep False [Space] Star] b of
        Some m \<Rightarrow> after m
      | None \<Rightarrow> b)"

definition keepBullet :: "jsstring \<Rightarrow> bool" where
  "keepBullet bullet \<longleftrightarrow>
     bullet \<noteq> [] \<and>
     \<not> includes_js bullet PLACEHOLDER \<and>
     \<not> includes_js bullet (js ''TEST DATES'') \<and>
     \<not> includes_js bullet (js ''ASSIGNMENT DEADLINE'') \<and>
     length bullet > 5"

definition extractBulletPoints :: "jsstring \<Rightarrow> jsstring \<Rightarrow> jsstring list" where
  "extractBulletPoints content sectionTitle =
     (case search True (sectionRegex sectionTitle) content of
        Some sectionMatch \<Rightarrow>
          filter keepBullet
            (map (\<lambda>bullet. trim (stripBullet bullet))
               (matchAll False bulletRegex (group1 sectionMatch)))
      | None \<Rightarrow> [])"

text \<open>\<^verbatim>\<open>/Course Name: ([^\n\<bullet>]+)/\<close> and its four siblings, by label.\<close>

definition fieldRegex :: "jsstring \<Rightarrow> rx list" where
  "fieldRegex label =
     [Lit (label @ js '': ''), CapOpen, Rep True [Ch 10, Ch BULLET] Plus, CapClose]"

text \<open>
  One of the five blocks
  \<^verbatim>\<open>if (content.includes('Professor:') && !courseInfo.professor) {
    const match = content.match(/Professor: ([^\n\<bullet>]+)/);
    if (match && !match[1].includes('Not specified')) courseInfo.professor = match[1].trim(); }\<close>
  as a function of the field's current value.
\<close>

definition mergeField :: "jsstring \<Rightarrow> jsstring \<Rightarrow> jsstring \<Rightarrow> jsstring" where
  "mergeField label content cur =
     (if includes_js content (label @ js '':'') \<and> cur = [] then
        (case search False (fieldRegex label) content of
           Some m \<Rightarrow>
             if \<not> includes_js (group1 m) (js ''Not specified'') then trim (group1 m) else cur
         | None \<Rightarrow> cur)
      else cur)"

text \<open>\<^verbatim>\<open>items.forEach(item => { if (!acc.includes(item)) acc.push(item); })\<close>\<close>

fun addUnique :: "jsstring list \<Rightarrow> jsstring list \<Rightarrow> jsstring list" where
  "addUnique acc [] = acc"
| "addUnique acc (item # items) =
     addUnique (if item \<in> set acc then acc else acc @ [item]) items"

text \<open>The body of \<open>allPageData.forEach\<close>; \<open>pageNumber\<close> is destructured and never read.\<close>

definition pageStep :: "merged \<Rightarrow> pageEntry \<Rightarrow> merged" where
  "pageStep acc page =
     (let content = plain_text (data page); ci = courseInfo acc in
      \<lparr>courseInfo =
         \<lparr>name = mergeField (js ''Course Name'') content (name ci),
          professor = mergeField (js ''Professor'') content (professor ci),
          email = mergeField (js ''Email'') content (email ci),
          meetingDays = mergeField (js ''Meeting Days'') content (meetingDays ci),
          officeHours = mergeField (js ''Office Hours'') content (officeHours ci)\<rparr>,
       testDates = addUnique (testDates acc) (extractBulletPoints content (js ''TEST DATES'')),
       assignmentDeadlines =
         addUnique (assignmentDeadlines acc)
           (extractBulletPoints content (js ''ASSIGNMENT DEADLINES'')),
       weeklyReadings =
         addUnique (weeklyReadings acc) (extractBulletPoints content (js ''WEEKLY READINGS'')),
       majorDeliverables =
         addUnique (majorDeliverables acc)
           (extractBulletPoints content (js ''MAJOR DELIVERABLES'')),
       importantDates =
         addUnique (importantDates acc)
           (extractBulletPoints content (js ''IMPORTANT DATES''))\<rparr>)"

definition emptyMerged :: merged where
  "emptyMerged =
     \<lparr>courseInfo = \<lparr>name = [], professor = [], email = [], meetingDays = [], officeHours = []\<rparr>,
      testDates = [], assignmentDeadlines = [], weeklyReadings = [],
      majorDeliverables = [], importantDates = []\<rparr>"

definition mergePages :: "pageEntry list \<Rightarrow> merged" where
  "mergePages allPageData = foldl pageStep emptyMerged allPageData"

text \<open>\<open>a || b\<close> on strings: the empty string is falsy.\<close>

definition orElse :: "jsstring \<Rightarrow> jsstring \<Rightarrow> jsstring" where
  "orElse a b = (if a = [] then b else a)"

text \<open>The list slots of the template: one bullet line per item, or the placeholder bullet.\<close>

definition bulletLines :: "jsstring list \<Rightarrow> jsstring" where
  "bulletLines items =
     (if length items > 0 then joinLines (map (\<lambda>item. [BULLET] @ js '' '' @ item) items)
      else [BULLET] @ js '' '' @ js ''Not specified in document'')"

definition ruleLine :: jsstring where
  "ruleLine = replicate 90 RULE"

definition render :: "merged \<Rightarrow> jsstring" where
  "render m =
     [10] @ ruleLine @ [10, 10] @
     BOOKS @ js '' SYLLABUS SUMMARY'' @ [10, 10] @
     CAP @ js '' COURSE INFORMATION'' @ [10] @
     [BULLET] @ js '' Course: '' @ orElse (name (courseInfo m)) (js ''Not specified'') @ [10] @
     [BULLET] @ js '' Professor: '' @ orElse (professor (courseInfo m)) (js ''Not specified'') @ [10] @
     [BULLET] @ js '' Email: '' @ orElse (email (courseInfo m)) (js ''Not specified'') @ [10] @
     [BULLET] @ js '' Meeting Days: '' @ orElse (meetingDays (courseInfo m)) (js ''Not specified'') @ [10] @
     [BULLET] @ js '' Office Hours: '' @ orElse (officeHours (courseInfo m)) (js ''Not specified'') @ [10, 10] @
     MEMO @ js '' EXAM DATES'' @ [10] @
     bulletLines (testDates m) @ [10, 10] @
     CLIPBOARD @ js '' ASSIGNMENT DEADLINES'' @ [10] @
     bulletLines (assignmentDeadlines m) @ [10, 10] @
     CALENDAR @ js '' IMPORTANT DATES'' @ [10] @
     bulletLines (addUnique [] (importantDates m)) @ [10, 10] @
     ruleLine @ [10]"

definition combineAllResults :: "pageEntry list \<Rightarrow> pageData" where
  "combineAllResults allPageData = \<lparr>plain_text = render (mergePages allPageData)\<rparr>"


section \<open>The page normaliser (\<open>parseSyllabusData\<close> and its helpers)\<close>

text \<open>
  The values a variable of the program can hold where a string is expected: the route
  handlers pass \<open>parseSyllabusData\<close> whatever \<open>analyzeSyllabusWithOpenAI\<close> returned.
\<close>

datatype jsval =
    JUndefined
  | JNull
  | JBool bool
  | JNum int
  | JStr jsstring
  | JArr "jsval list"
  | JObj "(jsstring \<times> jsval) list"

datatype js_error = TypeError | RangeError

text \<open>
  The three patterns of \<open>extractField\<close>. They are built from template literals, where
  \<^verbatim>\<open>\s\<close> is the letter s and \<^verbatim>\<open>\n\<close> a line feed, so that \<^verbatim>\<open>[:\s]*\<close> is the class of the
  colon and the letter s; \<^verbatim>\<open>\\s\<close> is the white-space class.
\<close>

definition fieldTail :: "rx list" where
  "fieldTail =
     [Rep False [Ch 58, Ch 115] Star, CapOpen, Rep True [Ch 10, Ch BULLET] Plus, CapClose]"

definition fieldPatterns :: "jsstring \<Rightarrow> rx list list" where
  "fieldPatterns fieldName =
     [Lit fieldName # fieldTail,
      Lit BOOKS # Rep False [Space] Star # Lit fieldName # fieldTail,
      Lit CAP # Rep False [Space] Star # Lit fieldName # fieldTail]"

fun firstField :: "rx list list \<Rightarrow> jsstring \<Rightarrow> jsstring option" where
  "firstField [] text = None"
| "firstField (pattern # patterns) text =
     (case search True pattern text of
        Some m \<Rightarrow>
          if group1 m \<noteq> [] then Some (stripBullet (trim (group1 m)))
          else firstField patterns text
      | None \<Rightarrow> firstField patterns text)"

text \<open>\<open>text.match\<close> exists on strings only: on anything else the call is a TypeError.\<close>

definition extractField :: "jsval \<Rightarrow> jsstring \<Rightarrow> js_error + jsstring option" where
  "extractField text fieldName =
     (case text of
        JStr s \<Rightarrow> Inr (firstField (fieldPatterns fieldName) s)
      | _ \<Rightarrow> Inl TypeError)"

subsection \<open>Dates\<close>

text \<open>
  A \<open>Date\<close> is its time value: milliseconds since the epoch in UTC, or NaN (\<open>None\<close>).
  How \<open>new Date(string)\<close> reads a string that is not in the ISO format is left to the
  host by ECMAScript, so the host's \<open>Date.parse\<close> is a parameter \<open>dateParse\<close>;
  \<open>toISOString\<close> is fixed by the standard: it throws a RangeError on NaN and prints the
  UTC fields otherwise.
\<close>

definition newDate :: "(jsstring \<Rightarrow> int option) \<Rightarrow> jsstring \<Rightarrow> int option" where
  "newDate dateParse s =
     (case dateParse s of
        None \<Rightarrow> None
      | Some t \<Rightarrow> if \<bar>t\<bar> \<le> 8640000000000000 then Some t else None)"

definition civilFromDays :: "int \<Rightarrow> int \<times> int \<times> int" where
  "civilFromDays days =
     (let z = days + 719468;
          era = z div 146097;
          doe = z mod 146097;
          yoe = (doe - doe div 1460 + doe div 36524 - doe div 146096) div 365;
          doy = doe - (365 * yoe + yoe div 4 - yoe div 100);
          mp = (5 * doy + 2) div 153;
          d = doy - (153 * mp + 2) div 5 + 1;
          m = (if mp < 10 then mp + 3 else mp - 9);
          y = yoe + era * 400 + (if m \<le> 2 then 1 else 0)
      in (y, m, d))"

fun digits :: "nat \<Rightarrow> nat \<Rightarrow> jsstring" where
  "digits 0 n = []"
| "digits (Suc w) n = digits w (n div 10) @ [48 + n mod 10]"

definition yearString :: "int \<Rightarrow> jsstring" where
  "yearString y =
     (if 0 \<le> y \<and> y \<le> 9999 then digits 4 (nat y)
      else (if y < 0 then js ''-'' else js ''+'') @ digits 6 (nat \<bar>y\<bar>))"

definition toISOString :: "int option \<Rightarrow> js_error + jsstring" where
  "toISOString date =
     (case date of
        None \<Rightarrow> Inl RangeError
      | Some t \<Rightarrow>
          (case civilFromDays (t div 86400000) of
             (y, m, d) \<Rightarrow>
               Inr (yearString y @ js ''-'' @ digits 2 (nat m) @ js ''-'' @ digits 2 (nat d) @
                    js ''T'' @ digits 2 (nat (t mod 86400000 div 3600000)) @
                    js '':'' @ digits 2 (nat (t mod 3600000 div 60000)) @
                    js '':'' @ digits 2 (nat (t mod 60000 div 1000)) @
                    js ''.'' @ digits 3 (nat (t mod 1000)) @ js ''Z'')))"

text \<open>\<open>iso.split('T')[0]\<close>\<close>

definition beforeT :: "jsstring \<Rightarrow> jsstring" where
  "beforeT isoText = takeWhile (\<lambda>c. c \<noteq> 84) isoText"

text \<open>
  What a host in a zone \<open>tz\<close> minutes east of UTC returns from \<open>Date.parse\<close> when it reads
  a string as the local midnight of a calendar day.
\<close>

definition daysFromCivil :: "int \<Rightarrow> int \<Rightarrow> int \<Rightarrow> int" where
  "daysFromCivil y m d =
     (let y' = (if m \<le> 2 then y - 1 else y);
          era = y' div 400;
          yoe = y' mod 400;
          doy = (153 * (if m > 2 then m - 3 else m + 9) + 2) div 5 + d - 1;
          doe = yoe * 365 + yoe div 4 - yoe div 100 + doy
      in era * 146097 + doe - 719468)"

definition localMidnight :: "int \<Rightarrow> int \<Rightarrow> int \<Rightarrow> int \<Rightarrow> int" where
  "localMidnight tz y m d = daysFromCivil y m d * 86400000 - tz * 60000"

subsection \<open>\<open>toLowerCase\<close>\<close>

text \<open>
  On a string of ASCII units \<open>toLowerCase\<close> maps A-Z to a-z; on any other string it
  follows the Unicode tables of the host, the parameter \<open>uni\<close>.
\<close>

definition asciiLower :: "nat \<Rightarrow> nat" where
  "asciiLower c = (if 65 \<le> c \<and> c \<le> 90 then c + 32 else c)"

definition toLowerCase :: "(jsstring \<Rightarrow> jsstring) \<Rightarrow> jsstring \<Rightarrow> jsstring" where
  "toLowerCase uni s = (if list_all (\<lambda>c. c < 128) s then map asciiLower s else uni s)"

subsection \<open>\<open>parseAssignmentBullet\<close>\<close>

record assignment =
  title :: jsstring
  due_date :: "jsstring option"
  due_time :: "jsstring option"
  atype :: jsstring
  description :: jsstring

text \<open>The four date patterns, each with its \<open>i\<close> flag.\<close>

definition datePatterns :: "(bool \<times> rx list) list" where
  "datePatterns =
     [(True, [CapOpen, Rep False [Word] Plus, Rep False [Space] Plus,
              Rep False [Digit] (Between 1 2), Rep False [Ch 44] Opt,
              Rep False [Space] Plus, Rep False [Digit] (Between 4 4), CapClose]),
      (False, [CapOpen, Rep False [Digit] (Between 1 2), Lit (js ''/''),
               Rep False [Digit] (Between 1 2), Lit (js ''/''),
               Rep False [Digit] (Between 4 4), CapClose]),
      (False, [CapOpen, Rep False [Digit] (Between 1 2), Lit (js ''-''),
               Rep False [Digit] (Between 1 2), Lit (js ''-''),
               Rep False [Digit] (Between 4 4), CapClose]),
      (True, [CapOpen, Rep False [Word] Plus, Rep False [Space] Plus,
              Rep False [Digit] (Between 1 2), CapClose])]"

text \<open>\<^verbatim>\<open>s.replace(/[:-]/g, '')\<close>\<close>

definition removeColonsHyphens :: "jsstring \<Rightarrow> jsstring" where
  "removeColonsHyphens s = filter (\<lambda>c. c \<noteq> 58 \<and> c \<noteq> 45) s"

text \<open>
  The loop over the patterns, returning \<open>(dueDate, title)\<close>. A RangeError of
  \<open>toISOString\<close> is caught and the loop goes on with the next pattern.
\<close>

fun dateLoop :: "(jsstring \<Rightarrow> int option) \<Rightarrow> (bool \<times> rx list) list \<Rightarrow> jsstring
                   \<Rightarrow> jsstring option \<times> jsstring" where
  "dateLoop dateParse [] bullet = (None, bullet)"
| "dateLoop dateParse ((ic, pattern) # patterns) bullet =
     (case search ic pattern bullet of
        Some m \<Rightarrow>
          (case toISOString (newDate dateParse (group1 m)) of
             Inr isoText \<Rightarrow>
               (Some (beforeT isoText), trim (removeColonsHyphens (removeFirst bullet (group1 m))))
           | Inl e \<Rightarrow> dateLoop dateParse patterns bullet)
      | None \<Rightarrow> dateLoop dateParse patterns bullet)"

definition assignmentType :: "(jsstring \<Rightarrow> jsstring) \<Rightarrow> jsstring \<Rightarrow> jsstring \<Rightarrow> jsstring" where
  "assignmentType uni bullet section =
     (if includes_js (toLowerCase uni section) (js ''test'') \<or>
         includes_js (toLowerCase uni section) (js ''exam'') \<or>
         includes_js (toLowerCase uni bullet) (js ''exam'') \<or>
         includes_js (toLowerCase uni bullet) (js ''test'') then js ''exam''
      else if includes_js (toLowerCase uni bullet) (js ''assignment'') \<or>
              includes_js (toLowerCase uni bullet) (js ''homework'') then js ''assignment''
      else if includes_js (toLowerCase uni bullet) (js ''reading'') then js ''reading''
      else if includes_js (toLowerCase uni bullet) (js ''project'') then js ''project''
      else if includes_js (toLowerCase uni bullet) (js ''quiz'') then js ''quiz''
      else js ''other'')"

definition parseAssignmentBullet ::
  "(jsstring \<Rightarrow> int option) \<Rightarrow> (jsstring \<Rightarrow> jsstring) \<Rightarrow> jsstring \<Rightarrow> jsstring \<Rightarrow> assignment" where
  "parseAssignmentBullet dateParse uni bullet section =
     (case dateLoop dateParse datePatterns bullet of
        (dueDate, title') \<Rightarrow>
          \<lparr>title = orElse title' bullet,
           due_date = dueDate,
           due_time = None,
           atype = assignmentType uni bullet section,
           description = bullet\<rparr>)"

subsection \<open>\<open>extractAssignments\<close> and \<open>parseSyllabusData\<close>\<close>

definition sections :: "jsstring list" where
  "sections = [js ''TEST DATES'', js ''ASSIGNMENT DEADLINE'', js ''Important Dates'',
               js ''EXAMS'', js ''ASSIGNMENTS'']"

text \<open>\<^verbatim>\<open>new RegExp(`${section}[\\s\\S]*?(?=\\n\\s*[...]|$)`, 'i')\<close>\<close>

definition assignmentSectionRegex :: "jsstring \<Rightarrow> rx list" where
  "assignmentSectionRegex section =
     [Lit section, Rep False [Space, NonSpace] LazyStar,
      Look [[Rep False [Ch 10] Once, Rep False [Space] Star, Rep False sectionGlyphs Once],
            [Eos]]]"

definition sectionAssignments ::
  "(jsstring \<Rightarrow> int option) \<Rightarrow> (jsstring \<Rightarrow> jsstring) \<Rightarrow> jsstring \<Rightarrow> jsstring \<Rightarrow> assignment list" where
  "sectionAssignments dateParse uni text section =
     (case search True (assignmentSectionRegex section) text of
        Some sectionMatch \<Rightarrow>
          map (\<lambda>cleanBullet. parseAssignmentBullet dateParse uni cleanBullet section)
            (filter (\<lambda>cleanBullet. cleanBullet \<noteq> [] \<and> \<not> includes_js cleanBullet PLACEHOLDER)
               (map (\<lambda>bullet. trim (stripBullet bullet))
                  (matchAll False bulletRegex (whole sectionMatch))))
      | None \<Rightarrow> [])"

definition extractAssignments ::
  "(jsstring \<Rightarrow> int option) \<Rightarrow> (jsstring \<Rightarrow> jsstring) \<Rightarrow> jsval \<Rightarrow> js_error + assignment list" where
  "extractAssignments dateParse uni text =
     (case text of
        JStr s \<Rightarrow> Inr (concat (map (sectionAssignments dateParse uni s) sections))
      | _ \<Rightarrow> Inl TypeError)"

record courseData =
  course_name :: jsstring
  professor_name :: jsstring
  professor_email :: jsstring
  meeting_days :: jsstring
  office_hours :: jsstring
  syllabus_text :: jsval

text \<open>\<open>extractField(...) || dflt\<close>: \<open>null\<close> and the empty string are falsy.\<close>

definition orDefault :: "jsstring option \<Rightarrow> jsstring \<Rightarrow> jsstring" where
  "orDefault r dflt = (case r of Some v \<Rightarrow> orElse v dflt | None \<Rightarrow> dflt)"

definition bindE :: "'e + 'a \<Rightarrow> ('a \<Rightarrow> 'e + 'b) \<Rightarrow> 'e + 'b" where
  "bindE r f = (case r of Inl e \<Rightarrow> Inl e | Inr v \<Rightarrow> f v)"

text \<open>\<open>parseSyllabusData\<close> of \<open>server.js\<close> (line 529) and \<open>unnamed/part_001\<close>.\<close>

definition parseSyllabusData ::
  "(jsstring \<Rightarrow> int option) \<Rightarrow> (jsstring \<Rightarrow> jsstring) \<Rightarrow> jsval
     \<Rightarrow> js_error + (courseData \<times> assignment list)" where
  "parseSyllabusData dateParse uni aiResponse =
     bindE (extractField aiResponse (js ''Course Name'')) (\<lambda>cn.
     bindE (extractField aiResponse (js ''Professor Name'')) (\<lambda>pn.
     bindE (extractField aiResponse (js ''Professor Email'')) (\<lambda>pe.
     bindE (extractField aiResponse (js ''Meeting Days'')) (\<lambda>md.
     bindE (extractField aiResponse (js ''Office Hours'')) (\<lambda>oh.
     bindE (extractAssignments dateParse uni aiResponse) (\<lambda>assignments.
       Inr (\<lparr>course_name = orDefault cn (js ''Unknown Course''),
             professor_name = orDefault pn (js ''Unknown Professor''),
             professor_email = orDefault pe [],
             meeting_days = orDefault md [],
             office_hours = orDefault oh [],
             syllabus_text = aiResponse\<rparr>, assignments)))))))"

section \<open>Batch persistence (\<open>saveAssignment\<close>, \<open>saveMultipleAssignments\<close>)\<close>

text \<open>
  The elements of \<open>assignments\<close> are JavaScript values: the records that
  \<open>extractAssignments\<close> builds, or, in the worker (\<open>unnamed/part_000\<close>), the elements of
  the array \<open>aiResponse.assignments\<close> of the model's JSON as they are. Reading a property
  of \<open>null\<close> or \<open>undefined\<close> is a TypeError; read from any other value, each of the five
  properties \<open>title\<close>, \<open>due_date\<close>, \<open>due_time\<close>, \<open>type\<close>, \<open>description\<close> is the value an
  object holds under that key (the last one, if the JSON repeats the key), and
  \<open>undefined\<close> otherwise.
\<close>

definition isNullish :: "jsval \<Rightarrow> bool" where
  "isNullish v \<longleftrightarrow> v = JNull \<or> v = JUndefined"

fun propertyOf :: "jsval \<Rightarrow> jsstring \<Rightarrow> jsval" where
  "propertyOf (JObj properties) key =
     (case map_of (rev properties) key of Some v \<Rightarrow> v | None \<Rightarrow> JUndefined)"
| "propertyOf v key = JUndefined"

text \<open>
  \<open>saveAssignment\<close> of both database classes: the bind parameters are read from
  \<open>assignmentData\<close>, then one INSERT runs on the connection and either returns the new
  row's id or fails with the driver's error object. What the database does with the
  statement is the parameter \<open>execute\<close>, a function of the database state and the bind
  parameters. A failure is rethrown (\<open>Database\<close>) or rejects the promise
  (\<open>SQLiteDatabase\<close>).
\<close>

definition saveAssignment ::
  "('db \<Rightarrow> jsval list \<Rightarrow> ('e + int) \<times> 'db) \<Rightarrow> 'db \<Rightarrow> int \<Rightarrow> jsval
     \<Rightarrow> ((js_error + 'e) + int) \<times> 'db" where
  "saveAssignment execute db courseId assignmentData =
     (if isNullish assignmentData then (Inl (Inl TypeError), db)
      else
        (case execute db
                [JNum courseId,
                 propertyOf assignmentData (js ''title''),
                 propertyOf assignmentData (js ''due_date''),
                 propertyOf assignmentData (js ''due_time''),
                 propertyOf assignmentData (js ''type''),
                 propertyOf assignmentData (js ''description'')] of
           (Inr insertId, db') \<Rightarrow> (Inr insertId, db')
         | (Inl err, db') \<Rightarrow> (Inl (Inr err), db')))"

text \<open>
  The loop of \<open>saveMultipleAssignments\<close> (the same in both database classes):
  \<^verbatim>\<open>for (const assignment of assignments) {
    try { const assignmentId = await this.saveAssignment(courseId, assignment);
          savedAssignments.push(assignmentId); }
    catch (error) {
      console.error(`Failed to save assignment: ${assignment.title}`, error.message); } }
  return savedAssignments;\<close>
  The handler reads \<open>assignment.title\<close> for its message: on \<open>null\<close> or \<open>undefined\<close> that
  is a TypeError thrown outside the \<open>try\<close> block, which ends the loop and rejects the
  call. What it catches is the TypeError of \<open>saveAssignment\<close> or the driver's error, both
  objects, so reading \<open>error.message\<close> does not throw.
\<close>

fun saveLoop :: "('db \<Rightarrow> jsval list \<Rightarrow> ('e + int) \<times> 'db) \<Rightarrow> int \<Rightarrow> int list \<Rightarrow> 'db \<Rightarrow> jsval list
                   \<Rightarrow> (js_error + int list) \<times> 'db" where
  "saveLoop execute courseId savedAssignments db [] = (Inr savedAssignments, db)"
| "saveLoop execute courseId savedAssignments db (assignment # rest) =
     (case saveAssignment execute db courseId assignment of
        (Inr assignmentId, db') \<Rightarrow>
          saveLoop execute courseId (savedAssignments @ [assignmentId]) db' rest
      | (Inl error, db') \<Rightarrow>
          if isNullish assignment then (Inl TypeError, db')
          else saveLoop execute courseId savedAssignments db' rest)"

definition saveMultipleAssignments ::
  "('db \<Rightarrow> jsval list \<Rightarrow> ('e + int) \<times> 'db) \<Rightarrow> 'db \<Rightarrow> int \<Rightarrow> jsval list
     \<Rightarrow> (js_error + int list) \<times> 'db" where
  "saveMultipleAssignments execute db courseId assignments =
     saveLoop execute courseId [] db assignments"


section \<open>Notions used to state the properties\<close>

definition pageText :: "pageEntry \<Rightarrow> jsstring" where
  "pageText page = plain_text (data page)"

text \<open>The first non-empty string of a list, or the empty string.\<close>

fun firstNonEmpty :: "jsstring list \<Rightarrow> jsstring" where
  "firstNonEmpty [] = []"
| "firstNonEmpty (v # vs) = (if v = [] then firstNonEmpty vs else v)"

text \<open>The elements of a list in the order of their first appearance, each once.\<close>

definition firstOccurrences :: "'a list \<Rightarrow> 'a list" where
  "firstOccurrences xs = rev (remdups (rev xs))"

text \<open>
  What saving the assignments of a list one by one, each on the database as the one
  before left it, returns call by call; the database after the last of them; and the ids
  among the results.
\<close>

fun outcomes :: "('db \<Rightarrow> jsval list \<Rightarrow> ('e + int) \<times> 'db) \<Rightarrow> int \<Rightarrow> 'db \<Rightarrow> jsval list
                   \<Rightarrow> ((js_error + 'e) + int) list" where
  "outcomes execute courseId db [] = []"
| "outcomes execute courseId db (a # as) =
     fst (saveAssignment execute db courseId a) #
     outcomes execute courseId (snd (saveAssignment execute db courseId a)) as"

fun databaseAfter :: "('db \<Rightarrow> jsval list \<Rightarrow> ('e + int) \<times> 'db) \<Rightarrow> int \<Rightarrow> 'db \<Rightarrow> jsval list \<Rightarrow> 'db" where
  "databaseAfter execute courseId db [] = db"
| "databaseAfter execute courseId db (a # as) =
     databaseAfter execute courseId (snd (saveAssignment execute db courseId a)) as"

fun successes :: "('e + int) list \<Rightarrow> int list" where
  "successes [] = []"
| "successes (Inr i # rs) = i # successes rs"
| "successes (Inl e # rs) = successes rs"

text \<open>
  A database for the examples: its state is the list of the rows inserted, a row's id is
  its position, and a row without a title (\<open>NOT NULL\<close> in the schema) is refused.
\<close>

definition sampleExecute :: "jsval list list \<Rightarrow> jsval list \<Rightarrow> (unit + int) \<times> jsval list list" where
  "sampleExecute rows params =
     (if params ! 1 = JUndefined \<or> params ! 1 = JNull then (Inl (), rows)
      else (Inr (int (length rows) + 1), rows @ [params]))"

definition homework :: "jsstring \<Rightarrow> jsval" where
  "homework text =
     JObj [(js ''title'', JStr text), (js ''due_date'', JNull), (js ''due_time'', JNull),
           (js ''type'', JStr (js ''assignment'')), (js ''description'', JStr text)]"

definition pageA :: pageEntry where
  "pageA = \<lparr>pageNumber = 1, data = \<lparr>plain_text = js ''Professor: Dr. A''\<rparr>\<rparr>"

definition pageB :: pageEntry where
  "pageB = \<lparr>pageNumber = 2, data = \<lparr>plain_text = js ''Professor: Dr. B''\<rparr>\<rparr>"

text \<open>The five scalar fields with the labels the merger looks for, and the five list
  categories with their section titles.\<close>

definition fieldLabels :: "(jsstring \<times> (courseInfo \<Rightarrow> jsstring)) list" where
  "fieldLabels =
     [(js ''Course Name'', name), (js ''Professor'', professor), (js ''Email'', email),
      (js ''Meeting Days'', meetingDays), (js ''Office Hours'', officeHours)]"

definition listCategories :: "(jsstring \<times> (merged \<Rightarrow> jsstring list)) list" where
  "listCategories =
     [(js ''TEST DATES'', testDates), (js ''ASSIGNMENT DEADLINES'', assignmentDeadlines),
      (js ''WEEKLY READINGS'', weeklyReadings), (js ''MAJOR DELIVERABLES'', majorDeliverables),
      (js ''IMPORTANT DATES'', importantDates)]"

text \<open>
  The specification's reading of what a page yields for a field: the text after the
  label, trimmed, unless it contains the placeholder sentinel.
\<close>

definition specFieldValue :: "jsstring \<Rightarrow> jsstring \<Rightarrow> jsstring" where
  "specFieldValue label content =
     (case search False (fieldRegex label) content of
        Some m \<Rightarrow> if \<not> includes_js (group1 m) PLACEHOLDER then trim (group1 m) else []
      | None \<Rightarrow> [])"

text \<open>
  A section as the vision prompt lays it out: the header, a line break, and one bullet
  line "\<bullet> item" per entry. An entry is not empty, has no line break in it, and begins
  and ends with a unit that is not white space (it is trimmed).
\<close>

definition bulletBlock :: "jsstring list \<Rightarrow> jsstring" where
  "bulletBlock items = joinLines (map (\<lambda>item. [BULLET, 32] @ item) items)"

definition isEntry :: "jsstring \<Rightarrow> bool" where
  "isEntry item \<longleftrightarrow>
     item \<noteq> [] \<and> 10 \<notin> set item \<and> \<not> isWhiteSpace (hd item) \<and> \<not> isWhiteSpace (last item)"

text \<open>The same text but for the case of its letters, and a text occurring in another in
  any letter case.\<close>

definition sameLetters :: "jsstring \<Rightarrow> jsstring \<Rightarrow> bool" where
  "sameLetters s t \<longleftrightarrow> map asciiUpper s = map asciiUpper t"

definition occursAnyCase :: "jsstring \<Rightarrow> jsstring \<Rightarrow> bool" where
  "occursAnyCase s t = includes_js (map asciiUpper s) (map asciiUpper t)"

text \<open>
  What ends a section's block: the end of the text, or a line break followed, after
  optional white space, by a code unit of one of the six section glyphs.
\<close>

definition glyphUnits :: "nat list" where
  "glyphUnits = CAP @ MEMO @ CLIPBOARD @ BOOKS @ DART @ CALENDAR"

definition endsBlock :: "jsstring \<Rightarrow> bool" where
  "endsBlock post =
     (case post of
        [] \<Rightarrow> True
      | c # cs \<Rightarrow>
          c = 10 \<and>
          (case dropWhile isWhiteSpace cs of [] \<Rightarrow> False | g # rest \<Rightarrow> g \<in> set glyphUnits))"

text \<open>A text in which every line break is followed by a bullet marker, and the end of
  the section pattern, from the closing parenthesis of the group on.\<close>

fun okBreaks :: "jsstring \<Rightarrow> bool" where
  "okBreaks [] = True"
| "okBreaks [c] = (c \<noteq> 10)"
| "okBreaks (c # d # s) = ((c = 10 \<longrightarrow> d = BULLET) \<and> okBreaks (d # s))"

definition lookTail :: "rx list" where
  "lookTail =
     [CapClose,
      Look [[Rep False [Ch 10] Once, Rep False [Space] Star, Rep False sectionGlyphs Once],
            [Eos]]]"

text \<open>
  The specification's reading of the bullet lines of a section (its section 4.2), before
  any of them is filtered out: locate the header, the line that names the section in any
  letter case, after its glyph if it has one; the block runs from the line after it to
  the next occurrence of one of the six section glyphs or to the end of the text; its
  entries are the lines of the block that begin with a bullet marker, the marker removed,
  trimmed.
\<close>

definition sectionGlyphList :: "jsstring list" where
  "sectionGlyphList = [CAP, MEMO, CLIPBOARD, BOOKS, DART, CALENDAR]"

fun splitFrom :: "jsstring \<Rightarrow> jsstring \<Rightarrow> jsstring list" where
  "splitFrom line [] = [rev line]"
| "splitFrom line (c # cs) =
     (if c = 10 then rev line # splitFrom [] cs else splitFrom (c # line) cs)"

definition splitLines :: "jsstring \<Rightarrow> jsstring list" where
  "splitLines s = splitFrom [] s"

definition isHeaderOf :: "jsstring \<Rightarrow> jsstring \<Rightarrow> bool" where
  "isHeaderOf sectionTitle line \<longleftrightarrow>
     sameLetters
       (trim (if list_ex (startsWith line) sectionGlyphList then drop 2 line else line))
       sectionTitle"

fun untilGlyph :: "jsstring \<Rightarrow> jsstring" where
  "untilGlyph [] = []"
| "untilGlyph (c # cs) =
     (if list_ex (startsWith (c # cs)) sectionGlyphList then [] else c # untilGlyph cs)"

definition specBulletLines :: "jsstring \<Rightarrow> jsstring \<Rightarrow> jsstring list" where
  "specBulletLines content sectionTitle =
     map (\<lambda>line. trim (tl line))
       (filter (\<lambda>line. startsWith line [BULLET])
          (splitLines (untilGlyph (joinLines (drop 1
             (dropWhile (\<lambda>line. \<not> isHeaderOf sectionTitle line) (splitLines content)))))))"

text \<open>The number of characters (code points) of a string: a surrogate pair is one.\<close>

fun codePoints :: "jsstring \<Rightarrow> nat" where
  "codePoints [] = 0"
| "codePoints [c] = 1"
| "codePoints (c # d # s) =
     (if 55296 \<le> c \<and> c \<le> 56319 \<and> 56320 \<le> d \<and> d \<le> 57343 then Suc (codePoints s)
      else Suc (codePoints (d # s)))"

text \<open>Pages for the examples.\<close>

definition pageC :: pageEntry where
  "pageC = \<lparr>pageNumber = 1, data = \<lparr>plain_text = js ''Professor: Not specified yet''\<rparr>\<rparr>"

definition testDatesPage :: "int \<Rightarrow> jsstring list \<Rightarrow> pageEntry" where
  "testDatesPage n items =
     \<lparr>pageNumber = n,
      data = \<lparr>plain_text = MEMO @ js '' TEST DATES'' @ [10] @
                 joinLines (map (\<lambda>item. [BULLET] @ js '' '' @ item) items)\<rparr>\<rparr>"

definition boundaryText :: jsstring where
  "boundaryText =
     MEMO @ js '' TEST DATES'' @ [10, BULLET] @ js '' abcdef'' @ [10, BULLET] @ js '' abcde'' @
     [10, BULLET] @ js '' Exam 2: Not specified in document'' @ [10, 10] @
     CLIPBOARD @ js '' ASSIGNMENT DEADLINES'' @ [10, BULLET] @ js '' Homework 1''"

definition readingsText :: jsstring where
  "readingsText =
     BOOKS @ js '' WEEKLY READINGS'' @ [10, BULLET] @ js '' WEEKLY READINGS'' @
     [10, BULLET] @ js '' Chapter 1''"

text \<open>A page whose COURSE INFORMATION section mentions the test dates at the end of a
  bullet line, and a bullet line of four letters and an emoji (U+1F600).\<close>

definition crossText :: jsstring where
  "crossText =
     CAP @ js '' COURSE INFORMATION'' @ [10, BULLET] @ js '' Exams are listed under test dates'' @
     [10, BULLET] @ js '' Office Hours: Mon 2-3'' @ [10, 10] @
     MEMO @ js '' TEST DATES'' @ [10, BULLET] @ js '' Midterm Oct 15''"

definition GRIN :: jsstring where "GRIN = [55357, 56832]"

definition emojiText :: jsstring where
  "emojiText = MEMO @ js '' TEST DATES'' @ [10, BULLET] @ js '' HW1 '' @ GRIN"

text \<open>
  Hosts for the examples: one whose \<open>Date.parse\<close> reads "March 15, 2024" as the local
  midnight of that day in a zone one hour east of UTC and rejects every other string, and
  a \<open>toLowerCase\<close> that leaves a string with non-ASCII units as it is (the examples are
  ASCII).
\<close>

definition hostParse :: "jsstring \<Rightarrow> int option" where
  "hostParse s = (if s = js ''March 15, 2024'' then Some (localMidnight 60 2024 3 15) else None)"

definition hostLower :: "jsstring \<Rightarrow> jsstring" where
  "hostLower s = s"

text \<open>The bullet line of the specification's date example, and a page in the format the
  vision prompt asks for.\<close>

definition midtermBullet :: jsstring where
  "midtermBullet = js ''Midterm March 15, 2024 (reschedule 3/20/2024)''"

definition samplePage :: pageEntry where
  "samplePage =
     \<lparr>pageNumber = 1,
      data = \<lparr>plain_text =
        CAP @ js '' COURSE INFORMATION'' @ [10, BULLET] @ js '' Course Name: CS101'' @ [10, 10] @
        MEMO @ js '' TEST DATES'' @ [10, BULLET] @ js '' Midterm Oct 15''\<rparr>\<rparr>"

section \<open>Evaluation of the matcher\<close>

lemma litRest_step: "litRest ic (p # ps) (c # cs) = litNext (ceq ic p c) ic ps cs"
  by (cases "ceq ic p c") simp_all

lemma mseq_Lit_step: "mseq ic (Lit p # rs) s co cc = afterLit (litRest ic p s) ic rs co cc"
  by (cases "litRest ic p s") simp_all

lemma mseq_Eos_step: "mseq ic (Eos # rs) s co cc = whenTrue (s = []) ic rs s co cc"
  by (cases "s = []") simp_all

lemma lookAny_iff: "lookAny ic alts s co cc = list_ex (\<lambda>alt. mseq ic alt s co cc \<noteq> None) alts"
proof (induction alts)
  case Nil
  then show ?case by simp
next
  case (Cons alt alts)
  then show ?case by (cases "mseq ic alt s co cc") auto
qed

lemma mseq_Look_step:
  "mseq ic (Look alts # rs) s co cc = whenTrue (lookAny ic alts s co cc) ic rs s co cc"
  by (cases "lookAny ic alts s co cc") (simp_all add: lookAny_iff)

lemma mrep_Nil_step: "mrep ic neg ms g mn mx rs [] co cc = whenTrue (mn = 0) ic rs [] co cc"
  by (cases "mn = 0") simp_all

lemma mrep_Cons_step:
  "mrep ic neg ms g mn mx rs (c # cs) co cc =
     mrepStep g (inSet ic neg ms c \<and> mx \<noteq> Some 0) ic neg ms mn mx rs c cs co cc"
proof (cases g)
  case True
  show ?thesis
  proof (cases "inSet ic neg ms c \<and> mx \<noteq> Some 0")
    case can: True
    show ?thesis
      using True can
      by (cases "mrep ic neg ms True (mn - 1) (map_option (\<lambda>n. n - 1) mx) rs cs co cc";
          cases "mn = 0") simp_all
  next
    case False
    with True show ?thesis by (cases "mn = 0") auto
  qed
next
  case False
  show ?thesis
  proof (cases "inSet ic neg ms c \<and> mx \<noteq> Some 0")
    case can: True
    with False show ?thesis
      by (cases "mn = 0"; cases "mseq ic rs (c # cs) co cc") simp_all
  next
    case cannot: False
    with False show ?thesis
      by (cases "mn = 0"; cases "mseq ic rs (c # cs) co cc") auto
  qed
qed

lemma matchHere_step: "matchHere ic p s = toMatch (mseq ic p s s s) s"
  by (cases "mseq ic p s s s") (auto simp: matchHere_def)

lemma search_step: "search ic p (c # cs) = searchStep (matchHere ic p (c # cs)) ic p cs"
  by (cases "matchHere ic p (c # cs)") simp_all

declare litRest.simps(3) [simp del] mseq.simps(2,4,7) [simp del] mrep.simps [simp del]
  search.simps(2) [simp del]

lemmas steps = litRest_step mseq_Lit_step mseq_Eos_step mseq_Look_step mrep_Nil_step
  mrep_Cons_step matchHere_step search_step


section \<open>Facts about strings\<close>

lemma startsWith_iff: "startsWith s t \<longleftrightarrow> (\<exists>b. s = t @ b)"
  by (induction s t rule: startsWith.induct) auto

lemma includes_js_iff: "includes_js s t \<longleftrightarrow> (\<exists>a b. s = a @ t @ b)"
proof (induction s)
  case Nil
  then show ?case by auto
next
  case (Cons c cs)
  show ?case
  proof
    assume "includes_js (c # cs) t"
    then consider "startsWith (c # cs) t" | "includes_js cs t" by auto
    then show "\<exists>a b. c # cs = a @ t @ b"
    proof cases
      case 1
      then obtain b where "c # cs = t @ b" by (auto simp: startsWith_iff)
      then have "c # cs = [] @ t @ b" by simp
      then show ?thesis by blast
    next
      case 2
      with Cons obtain a b where "cs = a @ t @ b" by auto
      then have "c # cs = (c # a) @ t @ b" by simp
      then show ?thesis by blast
    qed
  next
    assume "\<exists>a b. c # cs = a @ t @ b"
    then obtain a b where ab: "c # cs = a @ t @ b" by auto
    show "includes_js (c # cs) t"
    proof (cases a)
      case Nil
      with ab have "startsWith (c # cs) t" by (auto simp: startsWith_iff)
      then show ?thesis by simp
    next
      case (Cons a' as)
      with ab have "cs = as @ t @ b" by simp
      with Cons.IH  have "includes_js cs t" by auto
      then show ?thesis by simp
    qed
  qed
qed

lemma includes_js_appendI: "includes_js (a @ t @ b) t"
  by (auto simp: includes_js_iff)

lemma trim_decomp: "\<exists>a b. s = a @ trim s @ b"
proof -
  let ?d = "dropWhile isWhiteSpace s"
  have "s = takeWhile isWhiteSpace s @ ?d" by simp
  moreover have "?d = rev (dropWhile isWhiteSpace (rev ?d)) @ rev (takeWhile isWhiteSpace (rev ?d))"
    by (metis rev_append rev_rev_ident takeWhile_dropWhile_id)
  ultimately have "s = takeWhile isWhiteSpace s @ trim s @ rev (takeWhile isWhiteSpace (rev ?d))"
    by (simp add: trim_def)
  then show ?thesis by blast
qed

lemma includes_js_trim: "includes_js (trim s) t \<Longrightarrow> includes_js s t"
proof -
  assume "includes_js (trim s) t"
  then obtain a b where 1: "trim s = a @ t @ b" by (auto simp: includes_js_iff)
  obtain p q where "s = p @ trim s @ q" using trim_decomp by blast
  with 1 have "s = (p @ a) @ t @ (b @ q)" by simp
  then show ?thesis unfolding includes_js_iff by blast
qed

lemma dropWhile_hd_id: "xs = [] \<or> \<not> P (hd xs) \<Longrightarrow> dropWhile P xs = xs"
  by (cases xs) auto

lemma trim_idem: "trim (trim s) = trim s"
proof -
  define d where "d = dropWhile isWhiteSpace s"
  define r where "r = dropWhile isWhiteSpace (rev d)"
  have d: "d = [] \<or> \<not> isWhiteSpace (hd d)"
    unfolding d_def by (metis hd_dropWhile)
  have "rev d = takeWhile isWhiteSpace (rev d) @ r"
    unfolding r_def by simp
  then have dr: "d = rev r @ rev (takeWhile isWhiteSpace (rev d))"
    by (metis rev_append rev_rev_ident)
  have "rev r = [] \<or> \<not> isWhiteSpace (hd (rev r))"
  proof (cases "rev r")
    case Nil
    then show ?thesis by simp
  next
    case (Cons x xs)
    with dr have "hd d = x" by (metis hd_append2 list.distinct(1) list.sel(1))
    moreover from Cons dr have "d \<noteq> []" by auto
    ultimately show ?thesis using d Cons by simp
  qed
  then have a: "dropWhile isWhiteSpace (rev r) = rev r"
    by (rule dropWhile_hd_id)
  have b: "dropWhile isWhiteSpace r = r"
    unfolding r_def by (metis dropWhile_idem)
  have "trim s = rev r"
    by (simp add: trim_def d_def r_def)
  moreover have "trim (rev r) = rev r"
    by (simp add: trim_def a b)
  ultimately show ?thesis by simp
qed


section \<open>The merge loop\<close>

lemma mergeField_cur: "mergeField label content cur = (if cur = [] then mergeField label content [] else cur)"
  by (cases "cur = []") (simp_all add: mergeField_def)

lemma foldl_mergeField:
  "foldl (\<lambda>cur page. mergeField label (pageText page) cur) cur pages =
     (if cur = [] then firstNonEmpty (map (\<lambda>page. mergeField label (pageText page) []) pages) else cur)"
proof (induction pages arbitrary: cur)
  case Nil
  then show ?case by simp
next
  case (Cons p ps)
  show ?case
    using mergeField_cur [of label "pageText p" cur] by (simp add: Cons.IH)
qed

lemma courseInfo_foldl:
  "courseInfo (foldl pageStep acc pages) =
     \<lparr>name = foldl (\<lambda>cur page. mergeField (js ''Course Name'') (pageText page) cur) (name (courseInfo acc)) pages,
      professor = foldl (\<lambda>cur page. mergeField (js ''Professor'') (pageText page) cur) (professor (courseInfo acc)) pages,
      email = foldl (\<lambda>cur page. mergeField (js ''Email'') (pageText page) cur) (email (courseInfo acc)) pages,
      meetingDays = foldl (\<lambda>cur page. mergeField (js ''Meeting Days'') (pageText page) cur) (meetingDays (courseInfo acc)) pages,
      officeHours = foldl (\<lambda>cur page. mergeField (js ''Office Hours'') (pageText page) cur) (officeHours (courseInfo acc)) pages\<rparr>"
proof (induction pages arbitrary: acc)
  case Nil
  then show ?case by simp
next
  case (Cons p ps)
  show ?case
    by (simp add: Cons.IH) (simp add: pageStep_def Let_def pageText_def)
qed

lemma addUnique_append: "addUnique acc (xs @ ys) = addUnique (addUnique acc xs) ys"
  by (induction xs arbitrary: acc) auto

lemma lists_foldl:
  "testDates (foldl pageStep acc pages) =
     addUnique (testDates acc) (concat (map (\<lambda>page. extractBulletPoints (pageText page) (js ''TEST DATES'')) pages))"
  "assignmentDeadlines (foldl pageStep acc pages) =
     addUnique (assignmentDeadlines acc) (concat (map (\<lambda>page. extractBulletPoints (pageText page) (js ''ASSIGNMENT DEADLINES'')) pages))"
  "weeklyReadings (foldl pageStep acc pages) =
     addUnique (weeklyReadings acc) (concat (map (\<lambda>page. extractBulletPoints (pageText page) (js ''WEEKLY READINGS'')) pages))"
  "majorDeliverables (foldl pageStep acc pages) =
     addUnique (majorDeliverables acc) (concat (map (\<lambda>page. extractBulletPoints (pageText page) (js ''MAJOR DELIVERABLES'')) pages))"
  "importantDates (foldl pageStep acc pages) =
     addUnique (importantDates acc) (concat (map (\<lambda>page. extractBulletPoints (pageText page) (js ''IMPORTANT DATES'')) pages))"
proof (induction pages arbitrary: acc)
  case Nil
  { case 1 show ?case by simp }
  { case 2 show ?case by simp }
  { case 3 show ?case by simp }
  { case 4 show ?case by simp }
  { case 5 show ?case by simp }
next
  case (Cons p ps)
  { case 1 show ?case by (simp add: Cons.IH addUnique_append) (simp add: pageStep_def Let_def pageText_def) }
  { case 2 show ?case by (simp add: Cons.IH addUnique_append) (simp add: pageStep_def Let_def pageText_def) }
  { case 3 show ?case by (simp add: Cons.IH addUnique_append) (simp add: pageStep_def Let_def pageText_def) }
  { case 4 show ?case by (simp add: Cons.IH addUnique_append) (simp add: pageStep_def Let_def pageText_def) }
  { case 5 show ?case by (simp add: Cons.IH addUnique_append) (simp add: pageStep_def Let_def pageText_def) }
qed

lemma remdups_drop_later: "x \<in> set bs \<Longrightarrow> remdups (as @ x # bs) = remdups (as @ bs)"
  by (induction as) auto

lemma addUnique_firstOccurrences:
  "distinct acc \<Longrightarrow> addUnique acc xs = firstOccurrences (acc @ xs)"
proof (induction xs arbitrary: acc)
  case Nil
  then show ?case by (simp add: firstOccurrences_def distinct_remdups_id)
next
  case (Cons x xs)
  show ?case
  proof (cases "x \<in> set acc")
    case True
    then have "remdups (rev xs @ x # rev acc) = remdups (rev xs @ rev acc)"
      by (intro remdups_drop_later) simp
    with True Cons show ?thesis by (simp add: firstOccurrences_def)
  next
    case False
    with Cons.prems have "distinct (acc @ [x])" by simp
    from Cons.IH [OF this] False show ?thesis by simp
  qed
qed

lemma pageStep_text:
  "pageText p = pageText q \<Longrightarrow> pageStep acc p = pageStep acc q"
  by (simp add: pageStep_def pageText_def)

lemma foldl_pageStep_text:
  "map pageText ps = map pageText qs \<Longrightarrow> foldl pageStep acc ps = foldl pageStep acc qs"
proof (induction ps arbitrary: qs acc)
  case Nil
  then show ?case by simp
next
  case (Cons p ps)
  then obtain q qs' where q: "qs = q # qs'" "pageText p = pageText q" "map pageText ps = map pageText qs'"
    by (cases qs) auto
  from Cons.IH [OF q(3)] pageStep_text [OF q(2)] q(1) show ?case by simp
qed

lemma mergeField_clean:
  "\<not> includes_js (mergeField label content []) (js ''Not specified'')"
proof -
  have ne: "\<not> includes_js [] (js ''Not specified'')" by (simp add: js_def)
  show ?thesis
  proof (cases "search False (fieldRegex label) content")
    case None
    then show ?thesis using ne by (simp add: mergeField_def)
  next
    case (Some m)
    show ?thesis
    proof (cases "includes_js (group1 m) (js ''Not specified'')")
      case True
      with Some show ?thesis using ne by (simp add: mergeField_def)
    next
      case False
      then have "\<not> includes_js (trim (group1 m)) (js ''Not specified'')"
        using includes_js_trim by blast
      with Some False show ?thesis using ne by (simp add: mergeField_def)
    qed
  qed
qed

lemma firstNonEmpty_cases: "firstNonEmpty vs = [] \<or> firstNonEmpty vs \<in> set vs"
  by (induction vs) auto



section \<open>C10: the merger does not read the page numbers\<close>

text \<open>
  C10. The output of \<open>combineAllResults\<close>, and the merged fields and lists behind it, are
  the same for any two inputs whose sequences of \<open>plain_text\<close> strings are equal, whatever
  their \<open>pageNumber\<close> fields are: only the order of the array counts.
\<close>

theorem combineAllResults_ignores_pageNumber:
  "map pageText ps = map pageText qs \<Longrightarrow>
     mergePages ps = mergePages qs \<and> combineAllResults ps = combineAllResults qs"
  using foldl_pageStep_text [of ps qs emptyMerged]
  by (simp add: mergePages_def combineAllResults_def)

theorem combineAllResults_ignores_pageNumber_witness:
  "combineAllResults [pageA, pageB] =
   combineAllResults [pageA\<lparr>pageNumber := 40\<rparr>, pageB\<lparr>pageNumber := 3\<rparr>]"
  using combineAllResults_ignores_pageNumber
    [of "[pageA, pageB]" "[pageA\<lparr>pageNumber := 40\<rparr>, pageB\<lparr>pageNumber := 3\<rparr>]"]
  by (simp add: pageText_def)

section \<open>C9: a failed save and the saves after it\<close>

text \<open>
  On a list without \<open>null\<close> or \<open>undefined\<close> the loop saves every assignment, in order, on
  the database as the save before left it, also after a save has failed; it returns the
  ids of the saves that succeeded, in the order of the input.
\<close>

lemma saveLoop_objects:
  "list_all (\<lambda>a. \<not> isNullish a) assignments \<Longrightarrow>
   saveLoop execute courseId acc db assignments =
     (Inr (acc @ successes (outcomes execute courseId db assignments)),
      databaseAfter execute courseId db assignments)"
proof (induction assignments arbitrary: acc db)
  case Nil
  then show ?case by simp
next
  case (Cons a as)
  obtain r db' where r: "saveAssignment execute db courseId a = (r, db')"
    by (cases "saveAssignment execute db courseId a")
  from Cons.prems have a: "\<not> isNullish a" and as: "list_all (\<lambda>a. \<not> isNullish a) as"
    by simp_all
  show ?case
  proof (cases r)
    case (Inl e)
    with r a Cons.IH [OF as, of acc db'] show ?thesis by simp
  next
    case (Inr i)
    with r Cons.IH [OF as, of "acc @ [i]" db'] show ?thesis by simp
  qed
qed

lemma saveMultipleAssignments_objects:
  "list_all (\<lambda>a. \<not> isNullish a) assignments \<Longrightarrow>
   saveMultipleAssignments execute db courseId assignments =
     (Inr (successes (outcomes execute courseId db assignments)),
      databaseAfter execute courseId db assignments)"
  using saveLoop_objects [of assignments execute courseId "[]" db]
  by (simp add: saveMultipleAssignments_def)

lemma sample_homework_saved:
  "saveMultipleAssignments sampleExecute [] 1 [homework (js ''Homework 1'')] =
     (Inr [1],
      [[JNum 1, JStr (js ''Homework 1''), JNull, JNull, JStr (js ''assignment''),
        JStr (js ''Homework 1'')]])"
  by (simp add: saveMultipleAssignments_def saveAssignment_def isNullish_def homework_def
      sampleExecute_def js_def)





section \<open>Computing with concrete inputs\<close>

lemma replicate_numeral_step: "replicate (numeral v) x = x # replicate (numeral v - 1) x"
  by (simp add: numeral_eq_Suc)

lemma ruleLine_units:
  "ruleLine =
     [9473, 9473, 9473, 9473, 9473, 9473, 9473, 9473, 9473, 9473, 9473, 9473, 9473, 9473, 9473, 9473, 9473, 9473, 9473, 9473, 9473, 9473, 9473, 9473, 9473, 9473, 9473, 9473, 9473, 9473, 9473, 9473, 9473, 9473, 9473, 9473, 9473, 9473, 9473, 9473, 9473, 9473, 9473, 9473, 9473, 9473, 9473, 9473, 9473, 9473, 9473, 9473, 9473, 9473, 9473, 9473, 9473, 9473, 9473, 9473, 9473, 9473, 9473, 9473, 9473, 9473, 9473, 9473, 9473, 9473, 9473, 9473, 9473, 9473, 9473, 9473, 9473, 9473, 9473, 9473, 9473, 9473, 9473, 9473, 9473, 9473, 9473, 9473, 9473, 9473]"
  unfolding ruleLine_def RULE_def by (simp add: replicate_numeral_step)

lemmas ev =
  steps js_def BULLET_def CAP_def MEMO_def CLIPBOARD_def BOOKS_def DART_def CALENDAR_def
  isWhiteSpace_def isDigit_def isWordChar_def trim_def asciiUpper_def ceq_def inSet_def
  matchAll.simps PLACEHOLDER_def sectionGlyphs_def sectionRegex_def bulletRegex_def
  stripBullet_def keepBullet_def extractBulletPoints_def fieldRegex_def mergeField_def
  pageStep_def emptyMerged_def mergePages_def orElse_def bulletLines_def ruleLine_units
  render_def combineAllResults_def Let_def pageText_def

section \<open>C1: the first page with a value wins\<close>

lemma firstNonEmpty_append:
  "firstNonEmpty (xs @ ys) = (if firstNonEmpty xs = [] then firstNonEmpty ys else firstNonEmpty xs)"
  by (induction xs) auto

lemma firstNonEmpty_clean:
  "\<not> includes_js (firstNonEmpty (map (\<lambda>page. mergeField label (pageText page) []) pages))
       (js ''Not specified'')"
proof -
  let ?vs = "map (\<lambda>page. mergeField label (pageText page) []) pages"
  have ne: "\<not> includes_js [] (js ''Not specified'')" by (simp add: js_def)
  from firstNonEmpty_cases [of ?vs] show ?thesis
  proof
    assume "firstNonEmpty ?vs = []"
    with ne show ?thesis by simp
  next
    assume "firstNonEmpty ?vs \<in> set ?vs"
    then obtain page where "firstNonEmpty ?vs = mergeField label (pageText page) []" by auto
    with mergeField_clean [of label "pageText page"] show ?thesis by simp
  qed
qed

lemma merged_courseInfo:
  "courseInfo (mergePages pages) =
     \<lparr>name = firstNonEmpty (map (\<lambda>page. mergeField (js ''Course Name'') (pageText page) []) pages),
      professor = firstNonEmpty (map (\<lambda>page. mergeField (js ''Professor'') (pageText page) []) pages),
      email = firstNonEmpty (map (\<lambda>page. mergeField (js ''Email'') (pageText page) []) pages),
      meetingDays = firstNonEmpty (map (\<lambda>page. mergeField (js ''Meeting Days'') (pageText page) []) pages),
      officeHours = firstNonEmpty (map (\<lambda>page. mergeField (js ''Office Hours'') (pageText page) []) pages)\<rparr>"
  by (simp add: mergePages_def courseInfo_foldl foldl_mergeField emptyMerged_def)

lemma professor_A_B: "professor (courseInfo (mergePages [pageA, pageB])) = js ''Dr. A''"
  by (simp add: ev pageA_def pageB_def)

text \<open>
  C1, as the specification states it, fails: a page whose professor is given as
  "Not specified yet" yields a non-empty value that does not contain the placeholder
  sentinel, and yet the merger passes it over and takes the next page's value.
\<close>

theorem first_wins_placeholder_counterexample:
  "professor (courseInfo (mergePages [pageC, pageB])) = js ''Dr. B'' \<and>
   firstNonEmpty [specFieldValue (js ''Professor'') (pageText pageC),
                  specFieldValue (js ''Professor'') (pageText pageB)] = js ''Not specified yet''"
  by (simp add: ev specFieldValue_def pageC_def pageB_def)

text \<open>
  C1, amended. For every ordered list of pages and each of the five fields, the merged
  field is the value of the first page that yields a non-empty one, where a page yields
  the trimmed text after the field's label unless that text contains "Not specified" (the
  test the merger makes, which rejects the placeholder and every other text with that
  phrase); the merged value never contains "Not specified"; once a field is set, no
  later page changes it; and with page 1 giving "Dr. A" and page 2 giving "Dr. B" the
  merged professor is "Dr. A".
\<close>

theorem first_wins_course_fields:
  "list_all (\<lambda>(label, field).
       field (courseInfo (mergePages pages)) =
         firstNonEmpty (map (\<lambda>page. mergeField label (pageText page) []) pages) \<and>
       \<not> includes_js (field (courseInfo (mergePages pages))) (js ''Not specified'') \<and>
       (field (courseInfo (mergePages pages)) \<noteq> [] \<longrightarrow>
          field (courseInfo (mergePages (pages @ later))) = field (courseInfo (mergePages pages))))
     fieldLabels \<and>
   professor (courseInfo (mergePages [pageA, pageB])) = js ''Dr. A''"
proof -
  let ?P = "\<lambda>(label, field).
       field (courseInfo (mergePages pages)) =
         firstNonEmpty (map (\<lambda>page. mergeField label (pageText page) []) pages) \<and>
       \<not> includes_js (field (courseInfo (mergePages pages))) (js ''Not specified'') \<and>
       (field (courseInfo (mergePages pages)) \<noteq> [] \<longrightarrow>
          field (courseInfo (mergePages (pages @ later))) = field (courseInfo (mergePages pages)))"
  have aux: "?P (label, field)"
    if "\<And>ps. field (courseInfo (mergePages ps)) =
         firstNonEmpty (map (\<lambda>page. mergeField label (pageText page) []) ps)"
    for label and field :: "courseInfo \<Rightarrow> jsstring"
    by (simp only: that firstNonEmpty_clean firstNonEmpty_append map_append prod.case) simp
  have 1: "?P (js ''Course Name'', name)"
    by (rule aux) (simp only: merged_courseInfo courseInfo.simps)
  have 2: "?P (js ''Professor'', professor)"
    by (rule aux) (simp only: merged_courseInfo courseInfo.simps)
  have 3: "?P (js ''Email'', email)"
    by (rule aux) (simp only: merged_courseInfo courseInfo.simps)
  have 4: "?P (js ''Meeting Days'', meetingDays)"
    by (rule aux) (simp only: merged_courseInfo courseInfo.simps)
  have 5: "?P (js ''Office Hours'', officeHours)"
    by (rule aux) (simp only: merged_courseInfo courseInfo.simps)
  have "list_all ?P fieldLabels"
    unfolding fieldLabels_def using 1 2 3 4 5 by (simp only: list.pred_inject simp_thms)
  with professor_A_B show ?thesis by (rule conjI [rotated])
qed

theorem first_wins_course_fields_witness:
  "professor (courseInfo (mergePages ([pageA] @ [pageB]))) = js ''Dr. A'' \<and>
   professor (courseInfo (mergePages [pageA])) = js ''Dr. A''"
proof -
  have a: "professor (courseInfo (mergePages [pageA])) = js ''Dr. A''"
    by (simp add: ev pageA_def)
  have ne: "js ''Dr. A'' \<noteq> []" by (simp add: js_def)
  from first_wins_course_fields [of "[pageA]" "[pageB]"] a ne show ?thesis
    by (simp add: fieldLabels_def)
qed


section \<open>C5: lists are merged by union, in order of first appearance\<close>

lemma remdups_snoc: "remdups (zs @ [x]) = remdups (removeAll x zs) @ [x]"
  by (induction zs) auto

lemma firstOccurrences_Cons:
  "firstOccurrences (x # ys) = x # firstOccurrences (removeAll x ys)"
proof -
  have "removeAll x (rev ys) = rev (removeAll x ys)"
    by (simp add: removeAll_filter_not_eq rev_filter)
  then show ?thesis
    by (simp add: firstOccurrences_def remdups_snoc)
qed

lemma addUnique_appends:
  "addUnique acc xs = acc @ firstOccurrences (filter (\<lambda>item. item \<notin> set acc) xs)"
proof (induction xs arbitrary: acc)
  case Nil
  then show ?case by (simp add: firstOccurrences_def)
next
  case (Cons x xs)
  show ?case
  proof (cases "x \<in> set acc")
    case True
    with Cons.IH [of acc] show ?thesis by simp
  next
    case False
    have "filter (\<lambda>item. item \<notin> set (acc @ [x])) xs =
          removeAll x (filter (\<lambda>item. item \<notin> set acc) xs)"
      by (induction xs) auto
    with False Cons.IH [of "acc @ [x]"] show ?thesis
      by (simp add: firstOccurrences_Cons)
  qed
qed

lemma distinct_firstOccurrences: "distinct (firstOccurrences xs)"
  by (simp add: firstOccurrences_def)

lemma mergePages_snoc: "mergePages (pages @ [page]) = pageStep (mergePages pages) page"
  by (simp add: mergePages_def)

lemma merged_lists:
  "testDates (mergePages pages) =
     firstOccurrences (concat (map (\<lambda>page. extractBulletPoints (pageText page) (js ''TEST DATES'')) pages))"
  "assignmentDeadlines (mergePages pages) =
     firstOccurrences (concat (map (\<lambda>page. extractBulletPoints (pageText page) (js ''ASSIGNMENT DEADLINES'')) pages))"
  "weeklyReadings (mergePages pages) =
     firstOccurrences (concat (map (\<lambda>page. extractBulletPoints (pageText page) (js ''WEEKLY READINGS'')) pages))"
  "majorDeliverables (mergePages pages) =
     firstOccurrences (concat (map (\<lambda>page. extractBulletPoints (pageText page) (js ''MAJOR DELIVERABLES'')) pages))"
  "importantDates (mergePages pages) =
     firstOccurrences (concat (map (\<lambda>page. extractBulletPoints (pageText page) (js ''IMPORTANT DATES'')) pages))"
  using addUnique_firstOccurrences [of "[]"]
  by (simp_all add: mergePages_def lists_foldl emptyMerged_def)

lemma pageStep_lists:
  "testDates (pageStep acc page) =
     addUnique (testDates acc) (extractBulletPoints (pageText page) (js ''TEST DATES''))"
  "assignmentDeadlines (pageStep acc page) =
     addUnique (assignmentDeadlines acc) (extractBulletPoints (pageText page) (js ''ASSIGNMENT DEADLINES''))"
  "weeklyReadings (pageStep acc page) =
     addUnique (weeklyReadings acc) (extractBulletPoints (pageText page) (js ''WEEKLY READINGS''))"
  "majorDeliverables (pageStep acc page) =
     addUnique (majorDeliverables acc) (extractBulletPoints (pageText page) (js ''MAJOR DELIVERABLES''))"
  "importantDates (pageStep acc page) =
     addUnique (importantDates acc) (extractBulletPoints (pageText page) (js ''IMPORTANT DATES''))"
  by (simp_all add: pageStep_def Let_def pageText_def)

lemma testDates_Oct01:
  "testDates (mergePages [testDatesPage 1 [js ''Oct 01''],
                          testDatesPage 2 [js ''Oct 01'', js ''Oct 15'']]) =
     [js ''Oct 01'', js ''Oct 15'']"
  by (simp add: ev testDatesPage_def)

text \<open>
  C5, as the specification states it, fails on its example: "Oct 1" has five characters,
  so the extractor drops it on both pages and it never reaches the merged list.
\<close>

theorem union_dedup_Oct_1_counterexample:
  "testDates (mergePages [testDatesPage 1 [js ''Oct 1''],
                          testDatesPage 2 [js ''Oct 1'', js ''Oct 15'']]) = [js ''Oct 15'']"
  by (simp add: ev testDatesPage_def)

text \<open>
  C5, amended. For every ordered list of pages and each of the five list categories, the
  merged list holds the entries that \<open>extractBulletPoints\<close> returns for the pages, each
  once, in the order of their first appearance across the pages (never sorted); one more
  page appends to the list exactly its entries that are not in the list yet; and pages
  listing the test dates "Oct 01" and "Oct 01", "Oct 15" merge to "Oct 01", "Oct 15"
  (entries must have six characters or more to be extracted at all).
\<close>

theorem union_dedup_lists:
  "list_all (\<lambda>(title, category).
       category (mergePages pages) =
         firstOccurrences (concat (map (\<lambda>page. extractBulletPoints (pageText page) title) pages)) \<and>
       distinct (category (mergePages pages)) \<and>
       category (mergePages (pages @ [page])) =
         category (mergePages pages) @
         firstOccurrences (filter (\<lambda>item. item \<notin> set (category (mergePages pages)))
                             (extractBulletPoints (pageText page) title)))
     listCategories \<and>
   testDates (mergePages [testDatesPage 1 [js ''Oct 01''],
                          testDatesPage 2 [js ''Oct 01'', js ''Oct 15'']]) =
     [js ''Oct 01'', js ''Oct 15'']"
proof -
  let ?P = "\<lambda>(title, category).
       category (mergePages pages) =
         firstOccurrences (concat (map (\<lambda>page. extractBulletPoints (pageText page) title) pages)) \<and>
       distinct (category (mergePages pages)) \<and>
       category (mergePages (pages @ [page])) =
         category (mergePages pages) @
         firstOccurrences (filter (\<lambda>item. item \<notin> set (category (mergePages pages)))
                             (extractBulletPoints (pageText page) title))"
  have aux: "?P (title, category)"
    if "\<And>ps. category (mergePages ps) =
          firstOccurrences (concat (map (\<lambda>page. extractBulletPoints (pageText page) title) ps))"
      and "\<And>acc. category (pageStep acc page) =
          addUnique (category acc) (extractBulletPoints (pageText page) title)"
    for title and category :: "merged \<Rightarrow> jsstring list"
  proof -
    have "category (mergePages (pages @ [page])) =
          category (mergePages pages) @
          firstOccurrences (filter (\<lambda>item. item \<notin> set (category (mergePages pages)))
                              (extractBulletPoints (pageText page) title))"
      by (simp only: mergePages_snoc that(2) addUnique_appends)
    moreover have "distinct (category (mergePages pages))"
      by (simp only: that(1) distinct_firstOccurrences)
    ultimately show ?thesis
      using that(1) [of pages] by (simp only: prod.case simp_thms)
  qed
  have 1: "?P (js ''TEST DATES'', testDates)"
    by (rule aux) (simp_all only: merged_lists pageStep_lists)
  have 2: "?P (js ''ASSIGNMENT DEADLINES'', assignmentDeadlines)"
    by (rule aux) (simp_all only: merged_lists pageStep_lists)
  have 3: "?P (js ''WEEKLY READINGS'', weeklyReadings)"
    by (rule aux) (simp_all only: merged_lists pageStep_lists)
  have 4: "?P (js ''MAJOR DELIVERABLES'', majorDeliverables)"
    by (rule aux) (simp_all only: merged_lists pageStep_lists)
  have 5: "?P (js ''IMPORTANT DATES'', importantDates)"
    by (rule aux) (simp_all only: merged_lists pageStep_lists)
  have "list_all ?P listCategories"
    unfolding listCategories_def using 1 2 3 4 5 by (simp only: list.pred_inject simp_thms)
  with testDates_Oct01 show ?thesis by (rule conjI [rotated])
qed

section \<open>The matcher on a section of bullet lines\<close>

lemma litRest_sameLetters:
  "map asciiUpper p = map asciiUpper q \<Longrightarrow> litRest True p (q @ s) = Some s"
proof (induction p arbitrary: q)
  case Nil
  then show ?case by simp
next
  case (Cons x xs)
  then obtain y ys where q: "q = y # ys" "asciiUpper x = asciiUpper y"
    "map asciiUpper xs = map asciiUpper ys"
    by (cases q) auto
  with Cons.IH [of ys] show ?case by (simp add: litRest.simps(3) ceq_def)
qed

lemma litRest_None:
  "\<not> startsWith (map asciiUpper s) (map asciiUpper p) \<Longrightarrow> litRest True p s = None"
proof (induction p arbitrary: s)
  case Nil
  then show ?case by simp
next
  case (Cons x xs)
  show ?case
  proof (cases s)
    case Nil
    then show ?thesis by simp
  next
    case (Cons c cs)
    with Cons.prems Cons.IH [of cs] show ?thesis
      by (auto simp: litRest.simps(3) ceq_def)
  qed
qed

lemma startsWith_take: "startsWith s t \<longleftrightarrow> take (length t) s = t"
  by (induction s t rule: startsWith.induct) auto

lemma not_before_header:
  assumes "\<not> includes_js (map asciiUpper (pre @ butlast header)) (map asciiUpper t)"
    and "length header = length t" and "pre = a @ b" and "b \<noteq> []"
  shows "\<not> startsWith (map asciiUpper (b @ header @ rest)) (map asciiUpper t)"
proof
  assume sw: "startsWith (map asciiUpper (b @ header @ rest)) (map asciiUpper t)"
  have t: "t \<noteq> []"
  proof
    assume "t = []"
    moreover have "includes_js xs []" for xs :: jsstring
      by (cases xs) simp_all
    ultimately show False using assms(1) by simp
  qed
  with assms(2) have "header \<noteq> []" by auto
  then have h: "header = butlast header @ [last header]" by simp
  have len: "length t \<le> length (b @ butlast header)"
    using assms(2,4) \<open>header \<noteq> []\<close> by (cases b) auto
  from sw have "take (length t) (map asciiUpper (b @ header @ rest)) = map asciiUpper t"
    by (simp add: startsWith_take)
  moreover have "b @ header @ rest = (b @ butlast header) @ (last header # rest)"
    using h by (metis append.assoc append_Cons append_Nil)
  ultimately have "take (length t) (map asciiUpper (b @ butlast header)) = map asciiUpper t"
    using len by simp
  then obtain c where "map asciiUpper (b @ butlast header) = map asciiUpper t @ c"
    by (metis append_take_drop_id)
  then have "map asciiUpper (pre @ butlast header) = map asciiUpper a @ map asciiUpper t @ c"
    using assms(3) by simp
  with assms(1) show False by (metis includes_js_appendI)
qed

lemma matchHere_Lit_None:
  "litRest ic t s = None \<Longrightarrow> matchHere ic (Lit t # rs) s = None"
  by (simp add: matchHere_def mseq.simps(2))

lemma search_skip:
  "(\<And>a b. pre = a @ b \<Longrightarrow> b \<noteq> [] \<Longrightarrow> matchHere ic p (b @ s) = None) \<Longrightarrow>
   search ic p (pre @ s) = search ic p s"
proof (induction pre)
  case Nil
  then show ?case by simp
next
  case (Cons c cs)
  have "matchHere ic p ((c # cs) @ s) = None"
    using Cons.prems [of "[]" "c # cs"] by simp
  moreover have "search ic p (cs @ s) = search ic p s"
  proof (rule Cons.IH)
    fix a b
    assume "cs = a @ b" "b \<noteq> []"
    then show "matchHere ic p (b @ s) = None"
      using Cons.prems [of "c # a" b] by simp
  qed
  ultimately show ?case by (simp add: search.simps(2))
qed

lemma search_here: "matchHere ic p s = Some m \<Longrightarrow> search ic p s = Some m"
  by (cases s) (simp_all add: search.simps(2))

lemma mrep_greedy_run:
  assumes "list_all (inSet ic neg ms) xs"
    and "s = [] \<or> \<not> inSet ic neg ms (hd s)"
    and "mseq ic rs s co cc = Some r"
    and "mn \<le> length xs"
  shows "mrep ic neg ms True mn None rs (xs @ s) co cc = Some r"
  using assms(1,4)
proof (induction xs arbitrary: mn)
  case Nil
  with assms(2,3) show ?case by (cases s) (auto simp: mrep.simps)
next
  case (Cons x xs)
  then have "mrep ic neg ms True (mn - 1) None rs (xs @ s) co cc = Some r"
    by auto
  with Cons.prems show ?case by (simp add: mrep.simps)
qed

lemma mrep_lazy_here:
  "mseq ic rs s co cc = Some r \<Longrightarrow> mrep ic neg ms False 0 mx rs s co cc = Some r"
  by (cases s) (simp_all add: mrep.simps)

lemma mrep_exhausted: "mrep ic neg ms True 0 (Some 0) rs s co cc = mseq ic rs s co cc"
  by (cases s) (simp_all add: mrep.simps)

lemma inSet_glyph: "inSet True False sectionGlyphs g \<longleftrightarrow> g \<in> set glyphUnits"
  by (auto simp: inSet_def sectionGlyphs_def glyphUnits_def CAP_def MEMO_def CLIPBOARD_def
      BOOKS_def DART_def CALENDAR_def ceq_def asciiUpper_def split: if_splits)

lemma glyph_not_space: "g \<in> set glyphUnits \<Longrightarrow> \<not> isWhiteSpace g"
  by (auto simp: glyphUnits_def CAP_def MEMO_def CLIPBOARD_def BOOKS_def DART_def CALENDAR_def
      isWhiteSpace_def)

lemma inSet_space: "inSet ic False [Space] c \<longleftrightarrow> isWhiteSpace c"
  by (simp add: inSet_def)

lemma inSet_any: "inSet ic False [Space, NonSpace] c"
  by (simp add: inSet_def)

lemma inSet_newline: "inSet ic False [Ch 10] c \<longleftrightarrow> c = 10"
  by (auto simp: inSet_def ceq_def asciiUpper_def)

lemma inSet_not_newline: "inSet ic True [Ch 10] c \<longleftrightarrow> c \<noteq> 10"
  by (auto simp: inSet_def ceq_def asciiUpper_def)

lemma glyph_once:
  "mseq True [Rep False sectionGlyphs Once] s co cc \<noteq> None \<longleftrightarrow>
     (case s of [] \<Rightarrow> False | g # rest \<Rightarrow> g \<in> set glyphUnits)"
proof (cases s)
  case Nil
  then show ?thesis by (simp add: mrep.simps)
next
  case (Cons g rest)
  then show ?thesis
    by (cases rest) (auto simp: mrep.simps inSet_glyph)
qed

lemma space_then_glyph:
  "mrep True False [Space] True 0 None [Rep False sectionGlyphs Once] cs co cc \<noteq> None \<longleftrightarrow>
     (case dropWhile isWhiteSpace cs of [] \<Rightarrow> False | g # rest \<Rightarrow> g \<in> set glyphUnits)"
proof (induction cs)
  case Nil
  then show ?case by (simp add: mrep.simps)
next
  case (Cons c cs)
  show ?case
  proof (cases "isWhiteSpace c")
    case True
    then have "c \<notin> set glyphUnits" using glyph_not_space by blast
    then have "\<not> (mseq True [Rep False sectionGlyphs Once] (c # cs) co cc \<noteq> None)"
      unfolding glyph_once by simp
    then have "mseq True [Rep False sectionGlyphs Once] (c # cs) co cc = None"
      by blast
    with True Cons.IH show ?thesis
      by (auto simp: mrep.simps(2) inSet_space split: option.splits)
  next
    case False
    then show ?thesis
      using glyph_once [of "c # cs" co cc]
      by (simp add: mrep.simps(2) inSet_space)
  qed
qed

lemma newline_space_glyph:
  "mseq True [Rep False [Ch 10] Once, Rep False [Space] Star, Rep False sectionGlyphs Once]
     t co cc \<noteq> None \<longleftrightarrow>
   (case t of [] \<Rightarrow> False
    | c # cs \<Rightarrow> c = 10 \<and>
        (case dropWhile isWhiteSpace cs of [] \<Rightarrow> False | g # rest \<Rightarrow> g \<in> set glyphUnits))"
proof (cases t)
  case Nil
  then show ?thesis by (simp add: mrep.simps)
next
  case (Cons c cs)
  show ?thesis
  proof (cases "c = 10")
    case True
    with Cons show ?thesis
      using space_then_glyph [of cs co cc]
      by (auto simp: mrep.simps(2) inSet_newline mrep_exhausted split: option.splits)
  next
    case False
    with Cons show ?thesis by (simp add: mrep.simps(2) inSet_newline)
  qed
qed

lemma lookTail_endsBlock:
  "mseq True lookTail t co cc = (if endsBlock t then Some (t, co, t) else None)"
proof -
  have "mseq True [Eos] t co t \<noteq> None \<longleftrightarrow> t = []"
    by (simp add: mseq.simps(4))
  then show ?thesis
    using newline_space_glyph [of t co t]
    by (cases t) (auto simp: lookTail_def mseq.simps(7) endsBlock_def)
qed

lemma okBreaks_tl: "okBreaks (c # cs) \<Longrightarrow> okBreaks cs"
  by (cases cs) simp_all

lemma not_endsBlock: "okBreaks xs \<Longrightarrow> xs \<noteq> [] \<Longrightarrow> \<not> endsBlock (xs @ post)"
proof (cases xs rule: okBreaks.cases)
  case 1
  assume "xs \<noteq> []"
  with 1 show ?thesis by simp
next
  case (2 c)
  assume "okBreaks xs"
  with 2 show ?thesis by (simp add: endsBlock_def)
next
  case (3 c d s)
  assume "okBreaks xs"
  with 3 show ?thesis
    by (auto simp: endsBlock_def BULLET_def isWhiteSpace_def glyphUnits_def CAP_def MEMO_def
        CLIPBOARD_def BOOKS_def DART_def CALENDAR_def)
qed

lemma lazy_over_block:
  "okBreaks xs \<Longrightarrow>
   mrep True False [Space, NonSpace] False 0 None lookTail (xs @ post) co cc =
   mrep True False [Space, NonSpace] False 0 None lookTail post co cc"
proof (induction xs)
  case Nil
  then show ?case by simp
next
  case (Cons c cs)
  have "\<not> endsBlock ((c # cs) @ post)"
    using Cons.prems by (intro not_endsBlock) simp_all
  then have "mseq True lookTail (c # cs @ post) co cc = None"
    by (simp add: lookTail_endsBlock)
  moreover have "mrep True False [Space, NonSpace] False 0 None lookTail (cs @ post) co cc =
      mrep True False [Space, NonSpace] False 0 None lookTail post co cc"
    using Cons.IH Cons.prems okBreaks_tl by blast
  ultimately show ?case
    by (simp add: mrep.simps(2) inSet_any)
qed

lemma bulletBlock_Nil: "bulletBlock [] = []"
  by (simp add: bulletBlock_def)

lemma bulletBlock_single: "bulletBlock [item] = BULLET # 32 # item"
  by (simp add: bulletBlock_def)

lemma bulletBlock_Cons:
  "items \<noteq> [] \<Longrightarrow> bulletBlock (item # items) = BULLET # 32 # item @ 10 # bulletBlock items"
  by (cases items) (simp_all add: bulletBlock_def)

lemma bulletBlock_hd: "items \<noteq> [] \<Longrightarrow> \<exists>r. bulletBlock items = BULLET # r"
proof (cases items)
  case Nil
  assume "items \<noteq> []"
  with Nil show ?thesis by simp
next
  case (Cons item rest)
  then show ?thesis
    by (cases "rest = []") (simp_all add: bulletBlock_single bulletBlock_Cons)
qed

lemma okBreaks_no_newline: "10 \<notin> set xs \<Longrightarrow> okBreaks xs"
  by (induction xs rule: okBreaks.induct) simp_all

lemma okBreaks_append: "10 \<notin> set xs \<Longrightarrow> ys \<noteq> [] \<Longrightarrow> okBreaks (xs @ ys) = okBreaks ys"
proof (induction xs)
  case Nil
  then show ?case by simp
next
  case (Cons x xs)
  then obtain d s where ds: "xs @ ys = d # s" by (cases "xs @ ys") auto
  with Cons show ?case by simp
qed

lemma okBreaks_bulletBlock: "list_all isEntry items \<Longrightarrow> okBreaks (bulletBlock items)"
proof (induction items)
  case Nil
  then show ?case by (simp add: bulletBlock_Nil)
next
  case (Cons item items)
  then have nl: "10 \<notin> set (BULLET # 32 # item)"
    by (simp add: isEntry_def BULLET_def)
  show ?case
  proof (cases "items = []")
    case True
    with okBreaks_no_newline [OF nl] show ?thesis by (simp add: bulletBlock_single)
  next
    case False
    then obtain r where r: "bulletBlock items = BULLET # r" using bulletBlock_hd by blast
    have "okBreaks (bulletBlock items)" using Cons by simp
    with r have "okBreaks (10 # bulletBlock items)" by simp
    moreover have "bulletBlock (item # items) = (BULLET # 32 # item) @ (10 # bulletBlock items)"
      using False by (simp add: bulletBlock_Cons)
    ultimately show ?thesis
      using okBreaks_append [OF nl, of "10 # bulletBlock items"] by simp
  qed
qed

lemma bullet_matchHere:
  assumes "isEntry item" and "s = [] \<or> hd s = 10"
  shows "matchHere False bulletRegex (BULLET # 32 # item @ s) =
           Some \<lparr>whole = BULLET # 32 # item, group1 = item, after = s\<rparr>"
proof -
  let ?t = "BULLET # 32 # item @ s"
  have item: "item \<noteq> []" "\<not> isWhiteSpace (hd item)" "\<forall>c\<in>set item. c \<noteq> 10"
    using assms(1) by (auto simp: isEntry_def)
  have 1: "mrep False True [Ch 10] True 1 None [CapClose] (item @ s) (item @ s) ?t =
             Some (s, item @ s, s)"
  proof (rule mrep_greedy_run)
    show "list_all (inSet False True [Ch 10]) item"
      using item(3) by (simp add: list_all_iff inSet_not_newline)
    show "s = [] \<or> \<not> inSet False True [Ch 10] (hd s)"
      using assms(2) by (simp add: inSet_not_newline)
    show "mseq False [CapClose] s (item @ s) ?t = Some (s, item @ s, s)" by simp
    show "1 \<le> length item" using item(1) by (cases item) simp_all
  qed
  have 2: "mrep False False [Space] True 0 None
             [CapOpen, Rep True [Ch 10] Plus, CapClose] ([32] @ item @ s) ?t ?t =
             Some (s, item @ s, s)"
  proof (rule mrep_greedy_run)
    show "list_all (inSet False False [Space]) [32]"
      by (simp add: inSet_space isWhiteSpace_def)
    show "item @ s = [] \<or> \<not> inSet False False [Space] (hd (item @ s))"
      using item(1,2) by (simp add: inSet_space)
    show "mseq False [CapOpen, Rep True [Ch 10] Plus, CapClose] (item @ s) ?t ?t =
            Some (s, item @ s, s)"
      using 1 by simp
    show "0 \<le> length [32::nat]" by simp
  qed
  have "mseq False bulletRegex ?t ?t ?t = Some (s, item @ s, s)"
    using 2 by (simp add: bulletRegex_def mseq.simps(2) litRest.simps(3) ceq_def)
  then show ?thesis by (simp add: matchHere_def)
qed

lemma bullet_no_match_newline: "matchHere False bulletRegex (10 # s) = None"
  by (simp add: matchHere_def bulletRegex_def mseq.simps(2) litRest.simps(3) ceq_def BULLET_def)

lemma matchAll_same_search:
  "search ic p s = search ic p s' \<Longrightarrow> matchAll ic p s = matchAll ic p s'"
  using matchAll.simps [of ic p s] matchAll.simps [of ic p s'] by simp

lemma matchAll_bulletBlock:
  "list_all isEntry items \<Longrightarrow>
   matchAll False bulletRegex (bulletBlock items) = map (\<lambda>item. BULLET # 32 # item) items"
proof (induction items)
  case Nil
  have "search False bulletRegex [] = None"
    by (simp add: matchHere_def bulletRegex_def mseq.simps(2))
  then show ?case
    using matchAll.simps [of False bulletRegex "[]"] by (simp add: bulletBlock_Nil)
next
  case (Cons item items)
  then have item: "isEntry item" and items: "list_all isEntry items" by simp_all
  show ?case
  proof (cases "items = []")
    case True
    have "search False bulletRegex (BULLET # 32 # item @ []) =
            Some \<lparr>whole = BULLET # 32 # item, group1 = item, after = []\<rparr>"
      using bullet_matchHere [OF item, of "[]"] by (intro search_here) simp
    moreover have "matchAll False bulletRegex [] = []"
      using Cons.IH items True by (simp add: bulletBlock_Nil)
    ultimately show ?thesis
      using True matchAll.simps [of False bulletRegex "BULLET # 32 # item"]
      by (simp add: bulletBlock_single)
  next
    case False
    let ?s = "10 # bulletBlock items"
    have "search False bulletRegex (BULLET # 32 # item @ ?s) =
            Some \<lparr>whole = BULLET # 32 # item, group1 = item, after = ?s\<rparr>"
      using bullet_matchHere [OF item, of ?s] by (intro search_here) simp
    moreover have "matchAll False bulletRegex ?s = matchAll False bulletRegex (bulletBlock items)"
      by (rule matchAll_same_search) (simp add: search.simps(2) bullet_no_match_newline)
    ultimately show ?thesis
      using False Cons.IH [OF items]
        matchAll.simps [of False bulletRegex "BULLET # 32 # item @ ?s"]
      by (simp add: bulletBlock_Cons)
  qed
qed

lemma stripBullet_entry: "isEntry item \<Longrightarrow> stripBullet (BULLET # 32 # item) = item"
proof -
  assume e: "isEntry item"
  let ?t = "BULLET # 32 # item"
  have "mrep False False [Space] True 0 None [] ([32] @ item) ?t ?t = Some (item, ?t, ?t)"
  proof (rule mrep_greedy_run)
    show "list_all (inSet False False [Space]) [32]"
      by (simp add: inSet_space isWhiteSpace_def)
    show "item = [] \<or> \<not> inSet False False [Space] (hd item)"
      using e by (simp add: inSet_space isEntry_def)
    show "mseq False [] item ?t ?t = Some (item, ?t, ?t)" by simp
    show "0 \<le> length [32::nat]" by simp
  qed
  then have "mseq False [Lit [BULLET], Rep False [Space] Star] ?t ?t ?t = Some (item, ?t, ?t)"
    by (simp add: mseq.simps(2) litRest.simps(3) ceq_def)
  then show ?thesis by (simp add: stripBullet_def matchHere_def)
qed

lemma trim_entry: "isEntry item \<Longrightarrow> trim item = item"
proof -
  assume e: "isEntry item"
  then have "dropWhile isWhiteSpace item = item"
    by (intro dropWhile_hd_id) (simp add: isEntry_def)
  moreover have "dropWhile isWhiteSpace (rev item) = rev item"
    using e by (intro dropWhile_hd_id) (simp add: isEntry_def hd_rev)
  ultimately show ?thesis by (simp add: trim_def)
qed

lemma header_tail:
  "mrep True False [Space] True 0 None (Rep False [Ch 10] Once # rs) (10 # BULLET # s) co cc =
     mseq True rs (BULLET # s) co cc"
  by (simp add: mrep.simps(2) inSet_space inSet_newline isWhiteSpace_def BULLET_def
      split: option.splits)

lemma section_matchHere:
  assumes "sameLetters header sectionTitle" and "items \<noteq> []" and "list_all isEntry items"
    and "endsBlock post"
  shows "\<exists>m. matchHere True (sectionRegex sectionTitle)
               (header @ 10 # bulletBlock items @ post) = Some m \<and>
             group1 m = bulletBlock items"
proof -
  obtain r where r: "bulletBlock items = BULLET # r"
    using assms(2) bulletBlock_hd by blast
  have ok: "okBreaks (BULLET # r)"
    using okBreaks_bulletBlock [OF assms(3)] r by simp
  have lazy: "mrep True False [Space, NonSpace] False 0 None lookTail (BULLET # r @ post) co cc =
      Some (post, co, post)" for co cc
  proof -
    have "mseq True lookTail post co cc = Some (post, co, post)"
      using assms(4) by (simp add: lookTail_endsBlock)
    then have "mrep True False [Space, NonSpace] False 0 None lookTail post co cc =
        Some (post, co, post)"
      by (rule mrep_lazy_here)
    with lazy_over_block [OF ok, of post co cc] show ?thesis by simp
  qed
  have lit: "litRest True sectionTitle (header @ s) = Some s" for s
    using assms(1) by (intro litRest_sameLetters) (simp add: sameLetters_def)
  let ?t = "header @ 10 # BULLET # r @ post"
  have "mseq True (sectionRegex sectionTitle) ?t ?t ?t =
          Some (post, BULLET # r @ post, post)"
    by (simp add: sectionRegex_def mseq.simps(2) lit header_tail lazy [unfolded lookTail_def])
  then show ?thesis
    by (simp add: matchHere_def r)
qed

lemma section_search:
  assumes "sameLetters header sectionTitle"
    and "\<not> occursAnyCase (pre @ butlast header) sectionTitle"
    and "items \<noteq> []" and "list_all isEntry items" and "endsBlock post"
  shows "\<exists>m. search True (sectionRegex sectionTitle)
               (pre @ header @ [10] @ bulletBlock items @ post) = Some m \<and>
             group1 m = bulletBlock items"
proof -
  let ?s = "header @ 10 # bulletBlock items @ post"
  have len: "length header = length sectionTitle"
    using assms(1) unfolding sameLetters_def by (metis length_map)
  have "search True (sectionRegex sectionTitle) (pre @ ?s) =
          search True (sectionRegex sectionTitle) ?s"
  proof (rule search_skip)
    fix a b
    assume ab: "pre = a @ b" "b \<noteq> []"
    have "\<not> startsWith (map asciiUpper (b @ header @ 10 # bulletBlock items @ post))
             (map asciiUpper sectionTitle)"
      using assms(2) len ab unfolding occursAnyCase_def by (rule not_before_header)
    then have "litRest True sectionTitle (b @ ?s) = None"
      by (rule litRest_None)
    then show "matchHere True (sectionRegex sectionTitle) (b @ ?s) = None"
      unfolding sectionRegex_def by (rule matchHere_Lit_None)
  qed
  moreover obtain m where "matchHere True (sectionRegex sectionTitle) ?s = Some m"
    "group1 m = bulletBlock items"
    using section_matchHere [OF assms(1,3,4,5)] by blast
  ultimately show ?thesis
    using search_here [of True "sectionRegex sectionTitle" ?s m] by simp
qed

lemma keepBullet_iff:
  "keepBullet e \<longleftrightarrow>
     \<not> includes_js e PLACEHOLDER \<and> \<not> includes_js e (js ''TEST DATES'') \<and>
     \<not> includes_js e (js ''ASSIGNMENT DEADLINE'') \<and> 6 \<le> length e"
  by (auto simp: keepBullet_def)

lemma extractBulletPoints_section:
  assumes "sameLetters header sectionTitle"
    and "\<not> occursAnyCase (pre @ butlast header) sectionTitle"
    and "items \<noteq> []" and "list_all isEntry items" and "endsBlock post"
  shows "extractBulletPoints (pre @ header @ [10] @ bulletBlock items @ post) sectionTitle =
           filter keepBullet items"
proof -
  obtain m where m: "search True (sectionRegex sectionTitle)
      (pre @ header @ [10] @ bulletBlock items @ post) = Some m"
    "group1 m = bulletBlock items"
    using section_search [OF assms] by blast
  have "map (\<lambda>bullet. trim (stripBullet bullet)) (map (\<lambda>item. BULLET # 32 # item) items) = items"
    using assms(4) by (induction items) (simp_all add: stripBullet_entry trim_entry)
  with m show ?thesis
    by (simp add: extractBulletPoints_def matchAll_bulletBlock [OF assms(4)])
qed

lemma extractBulletPoints_entries:
  "list_all (\<lambda>e. trim e = e \<and> keepBullet e) (extractBulletPoints content sectionTitle)"
  by (auto simp: extractBulletPoints_def list_all_iff trim_idem split: option.splits)

lemma header_example:
  "extractBulletPoints readingsText (js ''WEEKLY READINGS'') =
     [js ''WEEKLY READINGS'', js ''Chapter 1'']"
  by (simp add: ev readingsText_def)

lemma cross_example:
  "extractBulletPoints crossText (js ''TEST DATES'') = [js ''Office Hours: Mon 2-3'']"
  by (simp add: ev crossText_def)

lemma cross_spec:
  "specBulletLines crossText (js ''TEST DATES'') = [js ''Midterm Oct 15'']"
  by (simp add: specBulletLines_def splitLines_def isHeaderOf_def sameLetters_def
      sectionGlyphList_def crossText_def js_def BULLET_def CAP_def MEMO_def CLIPBOARD_def BOOKS_def DART_def
      CALENDAR_def trim_def isWhiteSpace_def asciiUpper_def)

lemma emoji_example:
  "extractBulletPoints emojiText (js ''TEST DATES'') = [js ''HW1 '' @ GRIN]"
  by (simp add: ev emojiText_def GRIN_def)

lemma emoji_characters: "codePoints (js ''HW1 '' @ GRIN) = 5 \<and> length (js ''HW1 '' @ GRIN) = 6"
  by (simp add: js_def GRIN_def)

section \<open>C4: which bullet lines of a section are kept\<close>

text \<open>
  C4, as the specification states it, fails in three ways. For the section WEEKLY
  READINGS an entry that repeats the section's own header is returned. When the title
  occurs in a bullet line of an earlier section, the entries returned for TEST DATES are
  bullet lines of that section, and the bullet line under the header TEST DATES is not
  among them. And an entry of five characters is returned when one of them takes two
  code units.
\<close>

theorem extractBulletPoints_counterexample:
  "extractBulletPoints readingsText (js ''WEEKLY READINGS'') =
     [js ''WEEKLY READINGS'', js ''Chapter 1''] \<and>
   extractBulletPoints crossText (js ''TEST DATES'') = [js ''Office Hours: Mon 2-3''] \<and>
   specBulletLines crossText (js ''TEST DATES'') = [js ''Midterm Oct 15''] \<and>
   extractBulletPoints emojiText (js ''TEST DATES'') = [js ''HW1 '' @ GRIN] \<and>
   codePoints (js ''HW1 '' @ GRIN) = 5"
  using header_example cross_example cross_spec emoji_example emoji_characters by blast

text \<open>
  C4, amended. Where the first occurrence of the section title, in any letter case, is a
  header at the end of its line, followed by one or more bullet lines "\<bullet> item" up to
  the end of the text or to a line that starts with a section glyph, \<open>extractBulletPoints\<close>
  returns the items of these lines, in their order, less those that contain the
  placeholder sentinel, those that contain "TEST DATES" or "ASSIGNMENT DEADLINE" (these
  two header texts, whatever the section asked for), and those of fewer than six code
  units: an entry of six code units is kept and one of five is dropped. For every text
  and section title, every entry returned is trimmed and passes this filter.
\<close>

theorem extractBulletPoints_filter:
  assumes "sameLetters header sectionTitle"
    and "\<not> occursAnyCase (pre @ butlast header) sectionTitle"
    and "items \<noteq> []" and "list_all isEntry items" and "endsBlock post"
  shows "extractBulletPoints (pre @ header @ [10] @ bulletBlock items @ post) sectionTitle =
           filter (\<lambda>e. \<not> includes_js e PLACEHOLDER \<and> \<not> includes_js e (js ''TEST DATES'') \<and>
                       \<not> includes_js e (js ''ASSIGNMENT DEADLINE'') \<and> 6 \<le> length e) items \<and>
         list_all (\<lambda>e. trim e = e \<and> \<not> includes_js e PLACEHOLDER \<and>
                       \<not> includes_js e (js ''TEST DATES'') \<and>
                       \<not> includes_js e (js ''ASSIGNMENT DEADLINE'') \<and> 6 \<le> length e)
           (extractBulletPoints content anyTitle)"
proof -
  have "keepBullet =
    (\<lambda>e. \<not> includes_js e PLACEHOLDER \<and> \<not> includes_js e (js ''TEST DATES'') \<and>
         \<not> includes_js e (js ''ASSIGNMENT DEADLINE'') \<and> 6 \<le> length e)"
    by (rule ext) (rule keepBullet_iff)
  with extractBulletPoints_section [OF assms]
  have "extractBulletPoints (pre @ header @ [10] @ bulletBlock items @ post) sectionTitle =
           filter (\<lambda>e. \<not> includes_js e PLACEHOLDER \<and> \<not> includes_js e (js ''TEST DATES'') \<and>
                       \<not> includes_js e (js ''ASSIGNMENT DEADLINE'') \<and> 6 \<le> length e) items"
    by simp
  moreover have "list_all (\<lambda>e. trim e = e \<and> \<not> includes_js e PLACEHOLDER \<and>
                       \<not> includes_js e (js ''TEST DATES'') \<and>
                       \<not> includes_js e (js ''ASSIGNMENT DEADLINE'') \<and> 6 \<le> length e)
           (extractBulletPoints content anyTitle)"
    using extractBulletPoints_entries [of content anyTitle]
    by (simp add: list_all_iff keepBullet_iff)
  ultimately show ?thesis by blast
qed

theorem extractBulletPoints_filter_witness:
  "extractBulletPoints boundaryText (js ''TEST DATES'') = [js ''abcdef''] \<and>
   specBulletLines boundaryText (js ''TEST DATES'') =
     [js ''abcdef'', js ''abcde'', js ''Exam 2: Not specified in document'']"
proof -
  let ?pre = "MEMO @ js '' ''"
  let ?items = "[js ''abcdef'', js ''abcde'', js ''Exam 2: Not specified in document'']"
  let ?post = "[10, 10] @ CLIPBOARD @ js '' ASSIGNMENT DEADLINES'' @ [10, BULLET] @ js '' Homework 1''"
  have shape: "boundaryText = ?pre @ js ''TEST DATES'' @ [10] @ bulletBlock ?items @ ?post"
    by (simp add: boundaryText_def bulletBlock_def js_def)
  have 1: "sameLetters (js ''TEST DATES'') (js ''TEST DATES'')"
    by (simp add: sameLetters_def)
  have 2: "\<not> occursAnyCase (?pre @ butlast (js ''TEST DATES'')) (js ''TEST DATES'')"
    by (simp add: occursAnyCase_def js_def MEMO_def asciiUpper_def)
  have 3: "?items \<noteq> []" by simp
  have 4: "list_all isEntry ?items"
    by (simp add: isEntry_def js_def isWhiteSpace_def)
  have 5: "endsBlock ?post"
    by (simp add: endsBlock_def glyphUnits_def CLIPBOARD_def CAP_def MEMO_def BOOKS_def DART_def
        CALENDAR_def isWhiteSpace_def)
  have "filter (\<lambda>e. \<not> includes_js e PLACEHOLDER \<and> \<not> includes_js e (js ''TEST DATES'') \<and>
                    \<not> includes_js e (js ''ASSIGNMENT DEADLINE'') \<and> 6 \<le> length e) ?items =
          [js ''abcdef'']"
    by (simp add: PLACEHOLDER_def js_def)
  with extractBulletPoints_filter [OF 1 2 3 4 5] shape
  have "extractBulletPoints boundaryText (js ''TEST DATES'') = [js ''abcdef'']"
    by simp
  moreover have "specBulletLines boundaryText (js ''TEST DATES'') = ?items"
    by (simp add: specBulletLines_def splitLines_def isHeaderOf_def sameLetters_def
        sectionGlyphList_def boundaryText_def js_def BULLET_def CAP_def MEMO_def CLIPBOARD_def
        BOOKS_def DART_def CALENDAR_def trim_def isWhiteSpace_def asciiUpper_def)
  ultimately show ?thesis by blast
qed


section \<open>C3: the type of an assignment\<close>

lemma atype_parseAssignmentBullet:
  "atype (parseAssignmentBullet dateParse uni bullet section) = assignmentType uni bullet section"
  by (simp add: parseAssignmentBullet_def split: prod.splits)

lemmas lower = assignmentType_def toLowerCase_def asciiLower_def js_def

text \<open>
  C3, as the specification states it, fails on its third example: "Week 3: Chapter 5-6"
  contains none of the key words, so its type is "other", not "reading".
\<close>

theorem assignment_type_reading_counterexample:
  "atype (parseAssignmentBullet hostParse hostLower (js ''Week 3: Chapter 5-6'')
            (js ''WEEKLY READINGS'')) = js ''other''"
  by (simp add: atype_parseAssignmentBullet lower)

text \<open>
  C3, amended. For every bullet line and section name the type is decided by the first
  of these tests that holds, on the lower-cased strings: "exam" if the section name or
  the line contains "test" or "exam"; "assignment" if the line contains "assignment" or
  "homework"; "reading" if it contains "reading"; "project" if it contains "project";
  "quiz" if it contains "quiz"; and "other" otherwise. "Final Exam due December 12, 2024"
  is an "exam"; "Homework 2 Due: October 8, 2024" is an "assignment" and
  "Week 3: Chapter 5-6" is "other", unless the section name makes them an "exam".
\<close>

theorem assignment_type_first_match:
  "atype (parseAssignmentBullet dateParse uni bullet section) =
     (if includes_js (toLowerCase uni section) (js ''test'') \<or>
         includes_js (toLowerCase uni section) (js ''exam'') \<or>
         includes_js (toLowerCase uni bullet) (js ''exam'') \<or>
         includes_js (toLowerCase uni bullet) (js ''test'') then js ''exam''
      else if includes_js (toLowerCase uni bullet) (js ''assignment'') \<or>
              includes_js (toLowerCase uni bullet) (js ''homework'') then js ''assignment''
      else if includes_js (toLowerCase uni bullet) (js ''reading'') then js ''reading''
      else if includes_js (toLowerCase uni bullet) (js ''project'') then js ''project''
      else if includes_js (toLowerCase uni bullet) (js ''quiz'') then js ''quiz''
      else js ''other'') \<and>
   atype (parseAssignmentBullet dateParse uni (js ''Final Exam due December 12, 2024'') section) =
     js ''exam'' \<and>
   atype (parseAssignmentBullet dateParse uni (js ''Homework 2 Due: October 8, 2024'') section) =
     (if includes_js (toLowerCase uni section) (js ''test'') \<or>
         includes_js (toLowerCase uni section) (js ''exam'') then js ''exam''
      else js ''assignment'') \<and>
   atype (parseAssignmentBullet dateParse uni (js ''Week 3: Chapter 5-6'') section) =
     (if includes_js (toLowerCase uni section) (js ''test'') \<or>
         includes_js (toLowerCase uni section) (js ''exam'') then js ''exam''
      else js ''other'')"
proof -
  have 1: "includes_js (toLowerCase uni (js ''Final Exam due December 12, 2024'')) (js ''exam'')"
    by (simp add: lower)
  have 2: "assignmentType uni (js ''Homework 2 Due: October 8, 2024'') section =
     (if includes_js (toLowerCase uni section) (js ''test'') \<or>
         includes_js (toLowerCase uni section) (js ''exam'') then js ''exam''
      else js ''assignment'')"
    by (simp add: lower)
  have 3: "assignmentType uni (js ''Week 3: Chapter 5-6'') section =
     (if includes_js (toLowerCase uni section) (js ''test'') \<or>
         includes_js (toLowerCase uni section) (js ''exam'') then js ''exam''
      else js ''other'')"
    by (simp add: lower)
  have 4: "assignmentType uni (js ''Final Exam due December 12, 2024'') section = js ''exam''"
    using 1 by (simp only: assignmentType_def simp_thms if_True)
  show ?thesis
    by (simp only: atype_parseAssignmentBullet 2 3 4 simp_thms) (simp only: assignmentType_def)
qed

section \<open>C8: what the template puts in an empty slot\<close>

lemma startsWith_step: "startsWith s t \<Longrightarrow> startsWith (p @ s) (p @ t)"
  by (auto simp: startsWith_iff)

lemma startsWith_end: "startsWith (p @ s) p"
  by (auto simp: startsWith_iff)

lemma includes_js_start: "startsWith s t \<Longrightarrow> includes_js s t"
  by (cases s) (auto simp: startsWith_iff)

lemma includes_js_skip: "includes_js s t \<Longrightarrow> includes_js (a @ s) t"
proof -
  assume "includes_js s t"
  then obtain p q where "s = p @ t @ q" by (auto simp: includes_js_iff)
  then have "a @ s = (a @ p) @ t @ q" by simp
  then show ?thesis unfolding includes_js_iff by blast
qed

lemma bulletLines_Nil: "bulletLines [] = [BULLET] @ js '' '' @ js ''Not specified in document''"
  by (simp add: bulletLines_def)

lemma render_name_empty:
  "name (courseInfo m) = [] \<Longrightarrow> includes_js (render m) ([BULLET] @ js '' Course: '' @ js ''Not specified'' @ [10])"
  by (simp only: render_def orElse_def refl if_True)
     (((rule includes_js_start, (rule startsWith_step)+, rule startsWith_end) | rule includes_js_skip)+)

lemma render_professor_empty:
  "professor (courseInfo m) = [] \<Longrightarrow> includes_js (render m) ([BULLET] @ js '' Professor: '' @ js ''Not specified'' @ [10])"
  by (simp only: render_def orElse_def refl if_True)
     (((rule includes_js_start, (rule startsWith_step)+, rule startsWith_end) | rule includes_js_skip)+)

lemma render_email_empty:
  "email (courseInfo m) = [] \<Longrightarrow> includes_js (render m) ([BULLET] @ js '' Email: '' @ js ''Not specified'' @ [10])"
  by (simp only: render_def orElse_def refl if_True)
     (((rule includes_js_start, (rule startsWith_step)+, rule startsWith_end) | rule includes_js_skip)+)

lemma render_meetingDays_empty:
  "meetingDays (courseInfo m) = [] \<Longrightarrow> includes_js (render m) ([BULLET] @ js '' Meeting Days: '' @ js ''Not specified'' @ [10])"
  by (simp only: render_def orElse_def refl if_True)
     (((rule includes_js_start, (rule startsWith_step)+, rule startsWith_end) | rule includes_js_skip)+)

lemma render_officeHours_empty:
  "officeHours (courseInfo m) = [] \<Longrightarrow> includes_js (render m) ([BULLET] @ js '' Office Hours: '' @ js ''Not specified'' @ [10, 10])"
  by (simp only: render_def orElse_def refl if_True)
     (((rule includes_js_start, (rule startsWith_step)+, rule startsWith_end) | rule includes_js_skip)+)

lemma render_testDates_empty:
  "testDates m = [] \<Longrightarrow> includes_js (render m) (MEMO @ js '' EXAM DATES'' @ [10] @ [BULLET] @ js '' '' @ js ''Not specified in document'' @ [10, 10])"
  by (simp only: render_def bulletLines_Nil addUnique.simps append_assoc)
     (((rule includes_js_start, (rule startsWith_step)+, rule startsWith_end) | rule includes_js_skip)+)

lemma render_assignmentDeadlines_empty:
  "assignmentDeadlines m = [] \<Longrightarrow> includes_js (render m) (CLIPBOARD @ js '' ASSIGNMENT DEADLINES'' @ [10] @ [BULLET] @ js '' '' @ js ''Not specified in document'' @ [10, 10])"
  by (simp only: render_def bulletLines_Nil addUnique.simps append_assoc)
     (((rule includes_js_start, (rule startsWith_step)+, rule startsWith_end) | rule includes_js_skip)+)

lemma render_importantDates_empty:
  "importantDates m = [] \<Longrightarrow> includes_js (render m) (CALENDAR @ js '' IMPORTANT DATES'' @ [10] @ [BULLET] @ js '' '' @ js ''Not specified in document'' @ [10, 10])"
  by (simp only: render_def bulletLines_Nil addUnique.simps append_assoc)
     (((rule includes_js_start, (rule startsWith_step)+, rule startsWith_end) | rule includes_js_skip)+)

lemma rendered_empty:
  "plain_text (combineAllResults []) =
     [10] @ ruleLine @ [10, 10] @
     BOOKS @ js '' SYLLABUS SUMMARY'' @ [10, 10] @
     CAP @ js '' COURSE INFORMATION'' @ [10] @
     [BULLET] @ js '' Course: Not specified'' @ [10] @
     [BULLET] @ js '' Professor: Not specified'' @ [10] @
     [BULLET] @ js '' Email: Not specified'' @ [10] @
     [BULLET] @ js '' Meeting Days: Not specified'' @ [10] @
     [BULLET] @ js '' Office Hours: Not specified'' @ [10, 10] @
     MEMO @ js '' EXAM DATES'' @ [10] @
     [BULLET] @ js '' Not specified in document'' @ [10, 10] @
     CLIPBOARD @ js '' ASSIGNMENT DEADLINES'' @ [10] @
     [BULLET] @ js '' Not specified in document'' @ [10, 10] @
     CALENDAR @ js '' IMPORTANT DATES'' @ [10] @
     [BULLET] @ js '' Not specified in document'' @ [10, 10] @
     ruleLine @ [10]"
  by (simp add: ev)

text \<open>
  C8, as the specification states it, fails: for an empty course field the template
  writes "Not specified", not the placeholder sentinel "Not specified in document".
\<close>

theorem render_field_placeholder_counterexample:
  "name (courseInfo (mergePages [])) = [] \<and>
   \<not> includes_js (plain_text (combineAllResults [])) (js ''Course: Not specified in document'') \<and>
   includes_js (plain_text (combineAllResults [])) (js ''Course: Not specified'' @ [10])"
  by (simp only: rendered_empty) (simp add: ev)

text \<open>
  C8, amended. For every merged result, the rendered text has "Not specified" in the
  line of every course field that ended up empty, and a single bullet with the
  placeholder sentinel "Not specified in document" under each of the three headings it
  renders (exam dates, assignment deadlines, important dates) whose list ended up
  empty.
\<close>

theorem render_empty_slots:
  "(name (courseInfo (mergePages pages)) = [] \<longrightarrow>
      includes_js (plain_text (combineAllResults pages))
        ([BULLET] @ js '' Course: '' @ js ''Not specified'' @ [10])) \<and>
   (professor (courseInfo (mergePages pages)) = [] \<longrightarrow>
      includes_js (plain_text (combineAllResults pages))
        ([BULLET] @ js '' Professor: '' @ js ''Not specified'' @ [10])) \<and>
   (email (courseInfo (mergePages pages)) = [] \<longrightarrow>
      includes_js (plain_text (combineAllResults pages))
        ([BULLET] @ js '' Email: '' @ js ''Not specified'' @ [10])) \<and>
   (meetingDays (courseInfo (mergePages pages)) = [] \<longrightarrow>
      includes_js (plain_text (combineAllResults pages))
        ([BULLET] @ js '' Meeting Days: '' @ js ''Not specified'' @ [10])) \<and>
   (officeHours (courseInfo (mergePages pages)) = [] \<longrightarrow>
      includes_js (plain_text (combineAllResults pages))
        ([BULLET] @ js '' Office Hours: '' @ js ''Not specified'' @ [10, 10])) \<and>
   (testDates (mergePages pages) = [] \<longrightarrow>
      includes_js (plain_text (combineAllResults pages))
        (MEMO @ js '' EXAM DATES'' @ [10] @ [BULLET] @ js '' '' @ js ''Not specified in document'' @ [10, 10])) \<and>
   (assignmentDeadlines (mergePages pages) = [] \<longrightarrow>
      includes_js (plain_text (combineAllResults pages))
        (CLIPBOARD @ js '' ASSIGNMENT DEADLINES'' @ [10] @ [BULLET] @ js '' '' @ js ''Not specified in document'' @ [10, 10])) \<and>
   (importantDates (mergePages pages) = [] \<longrightarrow>
      includes_js (plain_text (combineAllResults pages))
        (CALENDAR @ js '' IMPORTANT DATES'' @ [10] @ [BULLET] @ js '' '' @ js ''Not specified in document'' @ [10, 10]))"
  unfolding combineAllResults_def pageData.simps
  by (intro conjI impI render_name_empty render_professor_empty render_email_empty
      render_meetingDays_empty render_officeHours_empty render_testDates_empty
      render_assignmentDeadlines_empty render_importantDates_empty)

theorem render_empty_slots_witness:
  "includes_js (plain_text (combineAllResults [])) ([BULLET] @ js '' Course: '' @ js ''Not specified'' @ [10]) \<and>
   includes_js (plain_text (combineAllResults [])) ([BULLET] @ js '' Professor: '' @ js ''Not specified'' @ [10]) \<and>
   includes_js (plain_text (combineAllResults [])) ([BULLET] @ js '' Email: '' @ js ''Not specified'' @ [10]) \<and>
   includes_js (plain_text (combineAllResults [])) ([BULLET] @ js '' Meeting Days: '' @ js ''Not specified'' @ [10]) \<and>
   includes_js (plain_text (combineAllResults [])) ([BULLET] @ js '' Office Hours: '' @ js ''Not specified'' @ [10, 10]) \<and>
   includes_js (plain_text (combineAllResults []))
     (MEMO @ js '' EXAM DATES'' @ [10] @ [BULLET] @ js '' '' @ js ''Not specified in document'' @ [10, 10]) \<and>
   includes_js (plain_text (combineAllResults []))
     (CLIPBOARD @ js '' ASSIGNMENT DEADLINES'' @ [10] @ [BULLET] @ js '' '' @ js ''Not specified in document'' @ [10, 10]) \<and>
   includes_js (plain_text (combineAllResults []))
     (CALENDAR @ js '' IMPORTANT DATES'' @ [10] @ [BULLET] @ js '' '' @ js ''Not specified in document'' @ [10, 10])"
  using render_empty_slots [of "[]"]
  by (simp add: mergePages_def emptyMerged_def)

section \<open>C2: the due date of the midterm example\<close>

lemma digits_numeral: "digits (numeral v) n = digits (numeral v - 1) (n div 10) @ [48 + n mod 10]"
proof -
  have "Suc (numeral v - 1) = numeral v" by simp
  with digits.simps(2) [of "numeral v - 1" n] show ?thesis by (simp only:)
qed

lemma digits_one: "digits 1 n = [48 + n mod 10]"
  using digits.simps(2) [of 0 n] by simp

lemma midterm_match:
  "search True
     [CapOpen, Rep False [Word] Plus, Rep False [Space] Plus, Rep False [Digit] (Between 1 2),
      Rep False [Ch 44] Opt, Rep False [Space] Plus, Rep False [Digit] (Between 4 4), CapClose]
     midtermBullet =
   Some \<lparr>whole = js ''March 15, 2024'', group1 = js ''March 15, 2024'',
         after = js '' (reschedule 3/20/2024)''\<rparr>"
  by (simp add: ev midtermBullet_def)

lemma dateLoop_midterm:
  "toISOString (newDate dateParse (js ''March 15, 2024'')) = Inr isoText \<Longrightarrow>
   fst (dateLoop dateParse datePatterns midtermBullet) = Some (beforeT isoText)"
  unfolding datePatterns_def
  by (simp only: dateLoop.simps midterm_match option.case rmatch.simps sum.case fst_conv)

lemma due_date_parseAssignmentBullet:
  "due_date (parseAssignmentBullet dateParse uni bullet section) =
     fst (dateLoop dateParse datePatterns bullet)"
  by (simp add: parseAssignmentBullet_def split: prod.splits)

lemma localMidnight_March_15: "localMidnight tz 2024 3 15 = 1710460800000 - tz * 60000"
  by (simp add: localMidnight_def daysFromCivil_def)

lemma civilFromDays_March_14: "civilFromDays 19796 = (2024, 3, 14)"
  unfolding civilFromDays_def Let_def by simp

lemma civilFromDays_March_15: "civilFromDays 19797 = (2024, 3, 15)"
  unfolding civilFromDays_def Let_def by simp

lemma date_prefix:
  "yearString 2024 @ js ''-'' @ digits 2 (nat 3) @ js ''-'' @ digits 2 (nat 14) @ js ''T'' =
     js ''2024-03-14T''"
  "yearString 2024 @ js ''-'' @ digits 2 (nat 3) @ js ''-'' @ digits 2 (nat 15) @ js ''T'' =
     js ''2024-03-15T''"
  by (simp_all add: yearString_def digits_numeral digits_one js_def)

lemma toISOString_day:
  assumes "civilFromDays (t div 86400000) = (y, m, d)"
  shows "\<exists>time. toISOString (Some t) =
           Inr ((yearString y @ js ''-'' @ digits 2 (nat m) @ js ''-'' @ digits 2 (nat d) @
                 js ''T'') @ time)"
  unfolding toISOString_def
  by (simp only: option.case assms prod.case append_assoc sum.inject same_append_eq) blast

lemma isoDate_east:
  assumes "0 < tz" "tz \<le> 840"
    and "dateParse s = Some (localMidnight tz 2024 3 15)"
  shows "\<exists>time. toISOString (newDate dateParse s) = Inr (js ''2024-03-14T'' @ time)"
proof -
  let ?t = "1710460800000 - tz * 60000"
  have "?t = 86400000 * 19796 + (86400000 - tz * 60000)" by simp
  moreover have "0 \<le> 86400000 - tz * 60000" "86400000 - tz * 60000 < 86400000"
    using assms by simp_all
  ultimately have "?t div 86400000 = 19796"
    by (rule int_div_pos_eq)
  then have "civilFromDays (?t div 86400000) = (2024, 3, 14)"
    by (simp only: civilFromDays_March_14)
  from toISOString_day [OF this]
  have iso: "\<exists>time. toISOString (Some ?t) = Inr (js ''2024-03-14T'' @ time)"
    by (simp only: date_prefix)
  have "\<bar>?t\<bar> \<le> 8640000000000000" using assms by simp
  then have "newDate dateParse s = Some ?t"
    using assms(3) by (simp add: newDate_def localMidnight_March_15)
  with iso show ?thesis by (simp only:)
qed

lemma isoDate_west:
  assumes "- 720 \<le> tz" "tz \<le> 0"
    and "dateParse s = Some (localMidnight tz 2024 3 15)"
  shows "\<exists>time. toISOString (newDate dateParse s) = Inr (js ''2024-03-15T'' @ time)"
proof -
  let ?t = "1710460800000 - tz * 60000"
  have "?t = 86400000 * 19797 + (- tz * 60000)" by simp
  moreover have "0 \<le> - tz * 60000" "- tz * 60000 < 86400000"
    using assms by simp_all
  ultimately have "?t div 86400000 = 19797"
    by (rule int_div_pos_eq)
  then have "civilFromDays (?t div 86400000) = (2024, 3, 15)"
    by (simp only: civilFromDays_March_15)
  from toISOString_day [OF this]
  have iso: "\<exists>time. toISOString (Some ?t) = Inr (js ''2024-03-15T'' @ time)"
    by (simp only: date_prefix)
  have "\<bar>?t\<bar> \<le> 8640000000000000" using assms by simp
  then have "newDate dateParse s = Some ?t"
    using assms(3) by (simp add: newDate_def localMidnight_March_15)
  with iso show ?thesis by (simp only:)
qed

lemma beforeT_date:
  "beforeT (js ''2024-03-14T'' @ time) = js ''2024-03-14''"
  "beforeT (js ''2024-03-15T'' @ time) = js ''2024-03-15''"
  by (simp_all add: beforeT_def js_def)

lemma dueDate_west_of_UTC:
  assumes "- 720 \<le> tz" "tz \<le> 0"
    and "dateParse (js ''March 15, 2024'') = Some (localMidnight tz 2024 3 15)"
  shows "due_date (parseAssignmentBullet dateParse uni midtermBullet section) =
           Some (js ''2024-03-15'')"
proof -
  obtain time where
    "toISOString (newDate dateParse (js ''March 15, 2024'')) = Inr (js ''2024-03-15T'' @ time)"
    using isoDate_west [of tz dateParse "js ''March 15, 2024''"] assms by blast
  then show ?thesis
    by (simp only: due_date_parseAssignmentBullet dateLoop_midterm beforeT_date)
qed

text \<open>
  C2. The first of the four patterns, "Month D, YYYY", matches "March 15, 2024" in the
  example line and is the one used. The due date is then cut from \<open>toISOString()\<close>, which
  prints the UTC day: on a host that reads the matched text as local midnight in a zone
  east of UTC (by up to 14 hours), the due date of "Midterm March 15, 2024 (reschedule
  3/20/2024)" is "2024-03-14", the day before the one written in the line.
\<close>

theorem dueDate_shifts_east_of_UTC:
  assumes "0 < tz" "tz \<le> 840"
    and "dateParse (js ''March 15, 2024'') = Some (localMidnight tz 2024 3 15)"
  shows "due_date (parseAssignmentBullet dateParse uni midtermBullet section) =
           Some (js ''2024-03-14'')"
proof -
  obtain time where
    "toISOString (newDate dateParse (js ''March 15, 2024'')) = Inr (js ''2024-03-14T'' @ time)"
    using isoDate_east [of tz dateParse "js ''March 15, 2024''"] assms by blast
  then show ?thesis
    by (simp only: due_date_parseAssignmentBullet dateLoop_midterm beforeT_date)
qed

theorem dueDate_shifts_east_of_UTC_witness:
  "due_date (parseAssignmentBullet hostParse hostLower midtermBullet (js ''TEST DATES'')) =
     Some (js ''2024-03-14'')"
  using dueDate_shifts_east_of_UTC [of 60 hostParse hostLower "js ''TEST DATES''"]
  by (simp add: hostParse_def)

section \<open>C6: \<open>parseSyllabusData\<close> on a value that is not a string\<close>

lemma parseSyllabusData_string:
  "\<exists>courseData assignments.
     parseSyllabusData dateParse uni (JStr s) = Inr (courseData, assignments)"
  by (simp add: parseSyllabusData_def extractField_def extractAssignments_def bindE_def)

text \<open>
  C6. \<open>parseSyllabusData\<close> (and \<open>extractField\<close>, its first call) throws a TypeError on
  every object: the \<open>{ plain_text: ... }\<close> that \<open>analyzePageWithOpenAI\<close> returns, and the
  objects of the JSON path alike. On a string it returns.
\<close>

theorem parseSyllabusData_object_throws:
  "parseSyllabusData dateParse uni (JObj properties) = Inl TypeError \<and>
   extractField (JObj properties) fieldName = Inl TypeError"
  by (simp add: parseSyllabusData_def extractField_def bindE_def)

section \<open>C7: the rendered template, read back\<close>

lemmas ev_field = fieldTail_def fieldPatterns_def extractField_def

lemma sample_merged:
  "name (courseInfo (mergePages [samplePage])) = js ''CS101''"
  "testDates (mergePages [samplePage]) = [js ''Midterm Oct 15'']"
  by (simp_all add: ev samplePage_def)

lemma sample_rendered:
  "plain_text (combineAllResults [samplePage]) =
     [10] @ ruleLine @ [10, 10] @
     BOOKS @ js '' SYLLABUS SUMMARY'' @ [10, 10] @
     CAP @ js '' COURSE INFORMATION'' @ [10] @
     [BULLET] @ js '' Course: CS101'' @ [10] @
     [BULLET] @ js '' Professor: Not specified'' @ [10] @
     [BULLET] @ js '' Email: Not specified'' @ [10] @
     [BULLET] @ js '' Meeting Days: Not specified'' @ [10] @
     [BULLET] @ js '' Office Hours: Not specified'' @ [10, 10] @
     MEMO @ js '' EXAM DATES'' @ [10] @
     [BULLET] @ js '' Midterm Oct 15'' @ [10, 10] @
     CLIPBOARD @ js '' ASSIGNMENT DEADLINES'' @ [10] @
     [BULLET] @ js '' Not specified in document'' @ [10, 10] @
     CALENDAR @ js '' IMPORTANT DATES'' @ [10] @
     [BULLET] @ js '' Not specified in document'' @ [10, 10] @
     ruleLine @ [10]"
  by (simp add: ev samplePage_def)

lemma sample_reread_name:
  "extractField (JStr (plain_text (combineAllResults [samplePage]))) (js ''Course Name'') =
     Inr None"
  by (simp only: sample_rendered) (simp add: ev ev_field)

lemma sample_reread_testDates:
  "extractBulletPoints (plain_text (combineAllResults [samplePage])) (js ''TEST DATES'') = []"
  by (simp only: sample_rendered) (simp add: ev)

text \<open>
  C7. A page gives the course name "CS101" and the test date "Midterm Oct 15"; both are in
  the merged summary and in the rendered text (as "Course: CS101" and under "EXAM DATES"),
  but read back from that text \<open>extractField\<close> finds no "Course Name" and
  \<open>extractBulletPoints\<close> finds no "TEST DATES" section: the round trip loses both.
\<close>

theorem template_round_trip_loses_fields:
  "name (courseInfo (mergePages [samplePage])) = js ''CS101'' \<and>
   testDates (mergePages [samplePage]) = [js ''Midterm Oct 15''] \<and>
   extractField (JStr (plain_text (combineAllResults [samplePage]))) (js ''Course Name'') =
     Inr None \<and>
   extractBulletPoints (plain_text (combineAllResults [samplePage])) (js ''TEST DATES'') = []"
  using sample_merged sample_reread_name sample_reread_testDates by blast

end
